theory Spec2Isabelle
  imports Complex_Main "HOL-Library.Char_ord" "HOL-Library.List_Lexorder" "HOL-Library.Multiset"
begin

section \<open>dat-dns: name resolution (index.js)\<close>

text \<open>
  A shallow embedding of \<^verbatim>\<open>index.js\<close>: the resolver \<^verbatim>\<open>resolveName\<close>, the two
  probes (\<^verbatim>\<open>fetchDnsOverHttpsRecord\<close> with \<^verbatim>\<open>parseDnsOverHttpsRecord\<close>, and
  \<^verbatim>\<open>fetchWellKnownRecord\<close> with \<^verbatim>\<open>parseWellknownDatRecord\<close>) and the regular
  expressions they use, with the default options of \<^verbatim>\<open>createDatDNS\<close>.

  Every function returns the list of its observable effects, in the order the code
  performs them, together with its result; a thrown error (a rejected promise) is the
  \<open>Inl\<close> of a sum. What lies outside \<^verbatim>\<open>index.js\<close> is a parameter of the model, held
  in the record \<open>env\<close>: Node's \<^verbatim>\<open>url.parse\<close> and \<^verbatim>\<open>JSON.parse\<close>, the answer of
  the network to an \<^verbatim>\<open>https.get\<close>, the value \<^verbatim>\<open>mCache.get\<close> returns (the module
  \<^verbatim>\<open>./cache\<close>), and the optional persistent cache of the caller.

  Collaborators follow their contracts: a transport call always answers (with a response
  or an error), event listeners and \<^verbatim>\<open>persistentCache.write\<close> do not throw.
  JavaScript strings are modelled as \<open>string\<close>; all characters the regular expressions
  inspect are ASCII.
\<close>

subsection \<open>JavaScript values\<close>

text \<open>
  A JavaScript number is a double: a finite one is a rational, and \<open>-0\<close> is identified
  with \<open>0\<close> (\<^verbatim>\<open>Number.isSafeInteger\<close>, \<^verbatim>\<open><\<close>, \<^verbatim>\<open>>\<close> and \<^verbatim>\<open>!==\<close> do not
  tell them apart).
\<close>

datatype number = Finite rat | PosInfinity | NegInfinity | NaN

datatype jsval =
    Undefined
  | Null
  | Bool bool
  | Num number
  | Str string
  | Arr "jsval list"
  | Obj "(string \<times> jsval) list"

datatype error = Error string | TypeError | Thrown string

abbreviation numOfInt :: "int \<Rightarrow> jsval" where
  "numOfInt i \<equiv> Num (Finite (of_int i))"

text \<open>\<^verbatim>\<open>v[p]\<close> for a property \<open>p\<close> that no prototype defines: \<^verbatim>\<open>undefined\<close> unless \<open>v\<close> is
  an object that has it; on \<^verbatim>\<open>null\<close> and \<^verbatim>\<open>undefined\<close> the access throws a TypeError.\<close>

fun getProp :: "jsval \<Rightarrow> string \<Rightarrow> error + jsval" where
  "getProp Undefined p = Inl TypeError"
| "getProp Null p = Inl TypeError"
| "getProp (Obj fs) p = Inr (case map_of fs p of Some v \<Rightarrow> v | None \<Rightarrow> Undefined)"
| "getProp v p = Inr Undefined"

text \<open>JavaScript truthiness.\<close>

fun truthy :: "jsval \<Rightarrow> bool" where
  "truthy Undefined = False"
| "truthy Null = False"
| "truthy (Bool b) = b"
| "truthy (Num (Finite r)) = (r \<noteq> 0)"
| "truthy (Num NaN) = False"
| "truthy (Num n) = True"
| "truthy (Str s) = (s \<noteq> [])"
| "truthy (Arr xs) = True"
| "truthy (Obj fs) = True"

text \<open>\<^verbatim>\<open>Number.isSafeInteger(v)\<close>: \<open>v\<close> is a number, an integer, and at most
  \<open>2^53 - 1\<close> in absolute value. \<open>toInt\<close> reads the integer of such a value.\<close>

definition isSafeInteger :: "jsval \<Rightarrow> bool" where
  "isSafeInteger v =
     (case v of
        Num (Finite r) \<Rightarrow> r = of_int \<lfloor>r\<rfloor> \<and> \<bar>r\<bar> \<le> 2 ^ 53 - 1
      | _ \<Rightarrow> False)"

definition toInt :: "jsval \<Rightarrow> int" where
  "toInt v = (case v of Num (Finite r) \<Rightarrow> \<lfloor>r\<rfloor> | _ \<Rightarrow> 0)"

subsection \<open>Constants and regular expressions (lines 10-17)\<close>

definition DEFAULT_DAT_DNS_TTL :: int where
  "DEFAULT_DAT_DNS_TTL = 3600"

definition MAX_DAT_DNS_TTL :: int where
  "MAX_DAT_DNS_TTL = 3600 * 24 * 7"

text \<open>The flag \<^verbatim>\<open>i\<close>: an ASCII letter matches in both cases.\<close>

definition lower :: "char \<Rightarrow> char" where
  "lower c =
     (case map_of (zip ''ABCDEFGHIJKLMNOPQRSTUVWXYZ'' ''abcdefghijklmnopqrstuvwxyz'') c of
        Some l \<Rightarrow> l
      | None \<Rightarrow> c)"

text \<open>The class \<^verbatim>\<open>[0-9a-f]\<close> under the flag \<^verbatim>\<open>i\<close>, and \<^verbatim>\<open>\d\<close>.\<close>

definition isHexDigit :: "char \<Rightarrow> bool" where
  "isHexDigit c = (lower c \<in> set ''0123456789abcdef'')"

definition isDigit :: "char \<Rightarrow> bool" where
  "isDigit c = (c \<in> set ''0123456789'')"

text \<open>
  \<^verbatim>\<open>DAT_HASH_REGEX = /^[0-9a-f]{64}?$/i\<close>, as \<^verbatim>\<open>hashRegex.test(name)\<close>. The \<^verbatim>\<open>?\<close>
  after the quantifier \<^verbatim>\<open>{64}\<close> makes it lazy, not optional: the pattern matches
  exactly the strings of 64 hexadecimal digits.
\<close>

definition hashRegex_test :: "string \<Rightarrow> bool" where
  "hashRegex_test s = (length s = 64 \<and> list_all isHexDigit s)"

text \<open>A literal matched at the start of \<open>s\<close> under the flag \<^verbatim>\<open>i\<close>; the rest of \<open>s\<close>.\<close>

fun stripPrefixCI :: "string \<Rightarrow> string \<Rightarrow> string option" where
  "stripPrefixCI [] s = Some s"
| "stripPrefixCI (p # ps) [] = None"
| "stripPrefixCI (p # ps) (c # cs) =
     (if lower c = lower p then stripPrefixCI ps cs else None)"

text \<open>The group \<^verbatim>\<open>([0-9a-f]{64})\<close> matched at the start of \<open>s\<close>: what it captures.\<close>

definition hex64 :: "string \<Rightarrow> string option" where
  "hex64 s =
     (if 64 \<le> length s \<and> list_all isHexDigit (take 64 s) then Some (take 64 s) else None)"

text \<open>
  \<^verbatim>\<open>DAT_TXT_REGEX = /"?datkey=([0-9a-f]{64})"?/i\<close>, as \<^verbatim>\<open>dnsTxtRegex.exec(data)\<close>:
  the capture \<^verbatim>\<open>match[1]\<close> of the leftmost match, \<open>None\<close> when \<^verbatim>\<open>exec\<close> gives
  \<^verbatim>\<open>null\<close>. \<open>txtMatchAt\<close> is the attempt at one start position: the optional quote is
  tried first, then given up.
\<close>

definition datkeyAt :: "string \<Rightarrow> string option" where
  "datkeyAt s = (case stripPrefixCI ''datkey='' s of Some r \<Rightarrow> hex64 r | None \<Rightarrow> None)"

definition txtMatchAt :: "string \<Rightarrow> string option" where
  "txtMatchAt s =
     (case s of
        c # cs \<Rightarrow>
          (if c = CHR 0x22
           then (case datkeyAt cs of Some k \<Rightarrow> Some k | None \<Rightarrow> datkeyAt s)
           else datkeyAt s)
      | [] \<Rightarrow> datkeyAt s)"

fun dnsTxtRegex_exec :: "string \<Rightarrow> string option" where
  "dnsTxtRegex_exec [] = txtMatchAt []"
| "dnsTxtRegex_exec (c # cs) =
     (case txtMatchAt (c # cs) of Some k \<Rightarrow> Some k | None \<Rightarrow> dnsTxtRegex_exec cs)"

text \<open>\<^verbatim>\<open>DAT_PROTOCOL_REGEX = /^dat:\/\/([0-9a-f]{64})/i\<close>: the capture, anchored at
  the start of the line.\<close>

definition protocolRegex_exec :: "string \<Rightarrow> string option" where
  "protocolRegex_exec s =
     (case stripPrefixCI ''dat://'' s of Some r \<Rightarrow> hex64 r | None \<Rightarrow> None)"

text \<open>\<^verbatim>\<open>/^ttl=(\d+)$/i\<close> (line 328): the digits captured, when the whole line matches.\<close>

definition ttlRegex_exec :: "string \<Rightarrow> string option" where
  "ttlRegex_exec s =
     (case stripPrefixCI ''ttl='' s of
        Some ds \<Rightarrow> (if ds \<noteq> [] \<and> list_all isDigit ds then Some ds else None)
      | None \<Rightarrow> None)"

text \<open>
  \<^verbatim>\<open>name.replace(VERSION_REGEX, '')\<close> with \<^verbatim>\<open>VERSION_REGEX = /(\+[^\/]+)$/\<close>: the
  leftmost \<^verbatim>\<open>+\<close> that is followed, up to the end of the string, by one or more
  characters other than \<^verbatim>\<open>/\<close> is removed together with what follows it.
\<close>

fun stripVersion :: "string \<Rightarrow> string" where
  "stripVersion [] = []"
| "stripVersion (c # cs) =
     (if c = CHR ''+'' \<and> cs \<noteq> [] \<and> CHR ''/'' \<notin> set cs then [] else c # stripVersion cs)"

subsection \<open>Numbers from digit strings\<close>

text \<open>
  The unary \<^verbatim>\<open>+\<close> of line 328 converts the captured decimal digits to a number: the
  double nearest to their value (ties to even), \<^verbatim>\<open>Infinity\<close> from \<open>2^1024\<close> on.
  Below \<open>2^53\<close> every natural number is a double.
\<close>

definition digitsValue :: "string \<Rightarrow> int" where
  "digitsValue ds = foldl (\<lambda>n c. 10 * n + (of_char c - 48)) 0 ds"

function bitLength :: "int \<Rightarrow> nat" where
  "bitLength n = (if n \<le> 0 then 0 else Suc (bitLength (n div 2)))"
  by pat_completeness auto
termination
  by (relation "measure nat") auto

declare bitLength.simps [simp del]

definition roundToDouble :: "int \<Rightarrow> number" where
  "roundToDouble n =
     (if n < 2 ^ 53 then Finite (of_int n)
      else
        (let e = bitLength n - 53;
             q = n div 2 ^ e;
             r = n mod 2 ^ e;
             q' = (if 2 * r > 2 ^ e \<or> (2 * r = 2 ^ e \<and> odd q) then q + 1 else q);
             v = q' * 2 ^ e
         in if v \<ge> 2 ^ 1024 then PosInfinity else Finite (of_int v)))"

definition digitsToNumber :: "string \<Rightarrow> jsval" where
  "digitsToNumber ds = Num (roundToDouble (digitsValue ds))"

subsection \<open>Effects and the environment\<close>

text \<open>
  The two probes; the payload \<^verbatim>\<open>err\<close> of a \<^verbatim>\<open>failed\<close> event (one constructor for each
  message the code builds); the two events \<^verbatim>\<open>resolved\<close> and \<^verbatim>\<open>failed\<close>.
\<close>

datatype probe = DnsOverHttps | WellKnown

datatype failure =
    NotFqdn                        \<comment> \<open>\<^verbatim>\<open>'Name is not a FQDN'\<close>\<close>
  | BadJson                        \<comment> \<open>\<^verbatim>\<open>'Failed to parse JSON response'\<close>\<close>
  | NoTxtAnswers                   \<comment> \<open>\<^verbatim>\<open>'Did not give any TXT answers'\<close>\<close>
  | HttpCodeErr int "string option" \<comment> \<open>\<^verbatim>\<open>'HTTP code ' + statusCode + ' ' + err\<close>\<close>
  | HttpCode int                   \<comment> \<open>\<^verbatim>\<open>'HTTP code ' + statusCode\<close>\<close>
  | EmptyResponse                  \<comment> \<open>\<^verbatim>\<open>'Empty response'\<close>\<close>
  | NotConforming                  \<comment> \<open>\<^verbatim>\<open>'Record did not conform to ' + protocolRegex\<close>\<close>
  | BadTtlLine                     \<comment> \<open>\<^verbatim>\<open>'Failed to parse TTL line, error: ' + e\<close>\<close>

datatype event =
    Resolved probe string string   \<comment> \<open>method, name, key\<close>
  | Failed probe string failure    \<comment> \<open>method, name, err\<close>

text \<open>
  An \<^verbatim>\<open>https.get\<close>: the TXT query for a name sent to the DNS-over-HTTPS provider
  (lines 196-210), or the request for \<^verbatim>\<open>/.well-known/dat\<close> sent to a host (lines
  286-290). The network answers with a status code and a body, or with an error.
\<close>

datatype request = DnsQuery string | WellKnownFile string

datatype outcome = Response int string | TransportError string

record response =
  statusCode :: int
  err :: "string option"
  body :: string

datatype effect =
    McGet string                   \<comment> \<open>\<^verbatim>\<open>mCache.get(name)\<close>\<close>
  | McSet string jsval jsval       \<comment> \<open>\<^verbatim>\<open>mCache.set(name, value, ttl)\<close>\<close>
  | Fetch probe string             \<comment> \<open>a call of \<^verbatim>\<open>fetchDnsOverHttpsRecord\<close> or \<^verbatim>\<open>fetchWellKnownRecord\<close>\<close>
  | HttpsGet request               \<comment> \<open>\<^verbatim>\<open>https.get(...)\<close>\<close>
  | Emit event                     \<comment> \<open>\<^verbatim>\<open>datDns.emit(...)\<close>\<close>
  | PcWrite string jsval jsval     \<comment> \<open>\<^verbatim>\<open>pCache.write(name, key, ttl)\<close>\<close>
  | PcRead string error            \<comment> \<open>\<^verbatim>\<open>pCache.read(name, err)\<close>\<close>

text \<open>What \<^verbatim>\<open>url.parse\<close> returns, as far as line 75 reads it (\<^verbatim>\<open>null\<close> is \<open>None\<close>).\<close>

record urlObject =
  hostname :: "string option"
  pathname :: "string option"

text \<open>
  The environment of one call. \<open>pCache_read\<close> is \<^verbatim>\<open>datDnsOpts.persistentCache\<close>:
  \<open>None\<close> when no persistent cache is configured, else what its \<^verbatim>\<open>read(name, err)\<close>
  returns or throws.
\<close>

record env =
  url_parse :: "string \<Rightarrow> error + urlObject"
  JSON_parse :: "string \<Rightarrow> jsval option"
  https_get :: "request \<Rightarrow> outcome"
  mCache_get :: "string \<Rightarrow> jsval"
  pCache_read :: "(string \<Rightarrow> error \<Rightarrow> error + jsval) option"

text \<open>The per-call options of \<^verbatim>\<open>resolveName\<close> (lines 68-71), by their truthiness.\<close>

record options =
  ignoreCache :: bool
  ignoreCachedMiss :: bool
  noDnsOverHttps :: bool
  noWellknownDat :: bool

text \<open>The pair \<^verbatim>\<open>{key, ttl}\<close> a parser returns.\<close>

record res =
  key :: string
  ttl :: int

subsection \<open>The DNS-over-HTTPS probe (lines 182-281)\<close>

text \<open>The callbacks of \<^verbatim>\<open>https.get\<close> (lines 210-215 and 290-295): what the promise
  resolves to.\<close>

definition toResponse :: "outcome \<Rightarrow> response" where
  "toResponse out =
     (case out of
        Response sc b \<Rightarrow> \<lparr>statusCode = sc, err = None, body = b\<rparr>
      | TransportError e \<Rightarrow> \<lparr>statusCode = 0, err = Some e, body = []\<rparr>)"

text \<open>
  \<^verbatim>\<open>fetchDnsOverHttpsRecord\<close>. For a name without a dot the promise is rejected, and
  the function goes on: nothing returns after \<^verbatim>\<open>reject\<close>, so the query is built and
  \<^verbatim>\<open>https.get\<close> is called as for any other name (the later \<^verbatim>\<open>resolve\<close> of the
  settled promise has no effect).
\<close>

definition fetchDnsOverHttpsRecord :: "env \<Rightarrow> string \<Rightarrow> effect list \<times> (error + response)" where
  "fetchDnsOverHttpsRecord en name =
     (let rejected = (CHR ''.'' \<notin> set name);
          qname = (if rejected then name
                   else if \<not> (name \<noteq> [] \<and> last name = CHR ''.'') then name @ ''.''
                   else name)
      in ([Fetch DnsOverHttps name]
          @ (if rejected then [Emit (Failed DnsOverHttps name NotFqdn)] else [])
          @ [HttpsGet (DnsQuery qname)],
          if rejected then Inl (Error ''Domain is not a FQDN.'')
          else Inr (toResponse (https_get en (DnsQuery qname)))))"

text \<open>
  The callback of \<^verbatim>\<open>answers.filter\<close> (lines 245-258): an answer is kept when it is an
  object whose \<^verbatim>\<open>data\<close> is a string that \<^verbatim>\<open>dnsTxtRegex\<close> matches, and then
  \<^verbatim>\<open>a.key = match[1]\<close>. A kept answer is the pair of that key and the answer.
\<close>

definition answerKey :: "jsval \<Rightarrow> string option" where
  "answerKey a =
     (case a of
        Obj fs \<Rightarrow> (case map_of fs ''data'' of Some (Str d) \<Rightarrow> dnsTxtRegex_exec d | _ \<Rightarrow> None)
      | _ \<Rightarrow> None)"

definition validAnswers :: "jsval list \<Rightarrow> (string \<times> jsval) list" where
  "validAnswers ans = List.map_filter (\<lambda>a. map_option (\<lambda>k. (k, a)) (answerKey a)) ans"

text \<open>\<^verbatim>\<open>a.TTL\<close> of a kept answer.\<close>

definition answerTTL :: "jsval \<Rightarrow> jsval" where
  "answerTTL a =
     (case a of
        Obj fs \<Rightarrow> (case map_of fs ''TTL'' of Some v \<Rightarrow> v | None \<Rightarrow> Undefined)
      | _ \<Rightarrow> Undefined)"

text \<open>
  The comparator of line 261, \<^verbatim>\<open>a.key < b.key ? 1 : a.key > b.key ? -1 : 0\<close> (strings
  compare by their code units), and \<^verbatim>\<open>Array.prototype.sort\<close>, a stable sort: an
  element goes before the first one it does not have to follow.
\<close>

definition compareKeys :: "string \<times> jsval \<Rightarrow> string \<times> jsval \<Rightarrow> int" where
  "compareKeys a b = (if fst a < fst b then 1 else if fst a > fst b then - 1 else 0)"

fun insertBy :: "('a \<Rightarrow> 'a \<Rightarrow> int) \<Rightarrow> 'a \<Rightarrow> 'a list \<Rightarrow> 'a list" where
  "insertBy cmp x [] = [x]"
| "insertBy cmp x (y # ys) = (if cmp x y \<le> 0 then x # y # ys else y # insertBy cmp x ys)"

definition sortBy :: "('a \<Rightarrow> 'a \<Rightarrow> int) \<Rightarrow> 'a list \<Rightarrow> 'a list" where
  "sortBy cmp xs = foldr (insertBy cmp) xs []"

text \<open>
  Lines 220-270 of \<^verbatim>\<open>parseDnsOverHttpsRecord\<close>, with the default
  \<^verbatim>\<open>dnsTxtRegex\<close>: the body decoded, its answers filtered and sorted, and
  \<^verbatim>\<open>answers[0]\<close>, the answer the result is read from.
\<close>

definition winningAnswer ::
  "env \<Rightarrow> string \<Rightarrow> string \<Rightarrow> effect list \<times> (error + string \<times> jsval)" where
  "winningAnswer en name b =
     (case JSON_parse en b of
        None \<Rightarrow>
          ([Emit (Failed DnsOverHttps name BadJson)],
           Inl (Error ''Invalid dns-over-https record, must provide json''))
      | Some rcd \<Rightarrow>
          (case getProp rcd ''Answer'' of
             Inl e \<Rightarrow> ([], Inl e)
           | Inr (Arr ans) \<Rightarrow>
               (case sortBy compareKeys (validAnswers ans) of
                  [] \<Rightarrow>
                    ([Emit (Failed DnsOverHttps name NoTxtAnswers)],
                     Inl (Error ''Invalid dns-over-https record, no TXT answer given''))
                | ka # rest \<Rightarrow> ([], Inr ka))
           | Inr other \<Rightarrow>
               ([Emit (Failed DnsOverHttps name NoTxtAnswers)],
                Inl (Error ''Invalid dns-over-https record, no answers given''))))"

text \<open>
  \<^verbatim>\<open>parseDnsOverHttpsRecord\<close>: lines 272-280 put the result together. After line
  274 the TTL is a safe integer, so the result holds it as an \<open>int\<close>.
\<close>

definition parseDnsOverHttpsRecord :: "env \<Rightarrow> string \<Rightarrow> string \<Rightarrow> effect list \<times> (error + res)" where
  "parseDnsOverHttpsRecord en name b =
     (case winningAnswer en name b of
        (es, Inl e) \<Rightarrow> (es, Inl e)
      | (es, Inr (k, a)) \<Rightarrow>
          (let t0 = answerTTL a;
               t1 = (if \<not> isSafeInteger t0 \<or> toInt t0 < 0
                     then DEFAULT_DAT_DNS_TTL else toInt t0);
               t2 = (if t1 > MAX_DAT_DNS_TTL then MAX_DAT_DNS_TTL else t1)
           in (es, Inr \<lparr>key = k, ttl = t2\<rparr>)))"

subsection \<open>The well-known probe (lines 283-346)\<close>

text \<open>\<^verbatim>\<open>fetchWellKnownRecord\<close> with the default \<^verbatim>\<open>recordName\<close>; its promise is
  never rejected.\<close>

definition fetchWellKnownRecord :: "env \<Rightarrow> string \<Rightarrow> effect list \<times> response" where
  "fetchWellKnownRecord en name =
     ([Fetch WellKnown name, HttpsGet (WellKnownFile name)],
      toResponse (https_get en (WellKnownFile name)))"

text \<open>\<^verbatim>\<open>body.split('\n')\<close>, and \<^verbatim>\<open>lines[i]\<close> (\<open>None\<close> is \<^verbatim>\<open>undefined\<close>).\<close>

fun splitLines :: "string \<Rightarrow> string list" where
  "splitLines [] = [[]]"
| "splitLines (c # cs) =
     (if c = CHR 0x0A then [] # splitLines cs
      else (case splitLines cs of l # ls \<Rightarrow> (c # l) # ls | [] \<Rightarrow> [[c]]))"

definition lineAt :: "string list \<Rightarrow> nat \<Rightarrow> string option" where
  "lineAt ls i = (if i < length ls then Some (ls ! i) else None)"

text \<open>\<^verbatim>\<open>protocolRegex.toString()\<close>, for the message of line 322.\<close>

definition protocolRegex_source :: string where
  "protocolRegex_source = ''/^dat:'' @ [CHR 0x5C] @ ''/'' @ [CHR 0x5C] @ ''/([0-9a-f]{64})/i''"

text \<open>
  Lines 326-337: the variable \<^verbatim>\<open>ttl\<close> after the second line is read. It stays
  \<^verbatim>\<open>undefined\<close> when there is no second line or the line is empty; a line that does
  not match makes \<^verbatim>\<open>exec(...)[1]\<close> throw, which is caught and reported.
\<close>

definition parseTtlLine :: "string \<Rightarrow> string list \<Rightarrow> effect list \<times> jsval" where
  "parseTtlLine name ls =
     (case lineAt ls 1 of
        None \<Rightarrow> ([], Undefined)
      | Some l \<Rightarrow>
          (if l \<noteq> [] then
             (case ttlRegex_exec l of
                Some ds \<Rightarrow> ([], digitsToNumber ds)
              | None \<Rightarrow> ([Emit (Failed WellKnown name BadTtlLine)], Undefined))
           else ([], Undefined)))"

text \<open>\<^verbatim>\<open>parseWellknownDatRecord\<close> with the default \<^verbatim>\<open>protocolRegex\<close>. A response
  without data has the body \<^verbatim>\<open>[]\<close>, which fails at line 300 as the empty string does.\<close>

definition parseWellknownDatRecord :: "env \<Rightarrow> string \<Rightarrow> string \<Rightarrow> effect list \<times> (error + res)" where
  "parseWellknownDatRecord en name b =
     (if b = [] then
        ([Emit (Failed WellKnown name EmptyResponse)], Inl (Error ''DNS record not found''))
      else
        (let ls = splitLines b in
         (case (case lineAt ls 0 of Some l \<Rightarrow> protocolRegex_exec l | None \<Rightarrow> None) of
            None \<Rightarrow>
              ([Emit (Failed WellKnown name NotConforming)],
               Inl (Error (''Invalid .well-known/dat record, must conform to''
                           @ protocolRegex_source)))
          | Some k \<Rightarrow>
              (let (es, t0) = parseTtlLine name ls;
                   t1 = (if \<not> isSafeInteger t0 \<or> toInt t0 < 0
                         then DEFAULT_DAT_DNS_TTL else toInt t0);
                   t2 = (if t1 > MAX_DAT_DNS_TTL then MAX_DAT_DNS_TTL else t1)
               in (es, Inr \<lparr>key = k, ttl = t2\<rparr>)))))"

subsection \<open>The resolver (lines 63-163)\<close>

text \<open>Lines 74-78: the name parsed and its version stripped. \<^verbatim>\<open>hostname || pathname\<close>
  takes the path when the host is \<^verbatim>\<open>null\<close> or empty; \<^verbatim>\<open>null.replace\<close> throws.\<close>

definition normalizeName :: "env \<Rightarrow> string \<Rightarrow> error + string" where
  "normalizeName en raw =
     (case url_parse en raw of
        Inl e \<Rightarrow> Inl e
      | Inr u \<Rightarrow>
          (case (case hostname u of
                   Some h \<Rightarrow> (if h \<noteq> [] then Some h else pathname u)
                 | None \<Rightarrow> pathname u) of
             None \<Rightarrow> Inl TypeError
           | Some n \<Rightarrow> Inr (stripVersion n)))"

text \<open>Lines 87-96, the memory cache: \<open>Some\<close> when the block returns or throws, \<open>None\<close>
  when the call goes on to the probes.\<close>

definition checkCache :: "env \<Rightarrow> options \<Rightarrow> string \<Rightarrow> effect list \<times> (error + jsval) option" where
  "checkCache en opts name =
     (if \<not> ignoreCache opts then
        (let cachedKey = mCache_get en name in
         ([McGet name],
          if cachedKey \<noteq> Undefined then
            (if truthy cachedKey \<or> (\<not> truthy cachedKey \<and> \<not> ignoreCachedMiss opts) then
               (if truthy cachedKey then Some (Inr cachedKey)
                else Some (Inl (Error ''DNS record not found'')))
             else None)
          else None))
      else ([], None))"

text \<open>The variable \<^verbatim>\<open>res\<close> of line 98: \<^verbatim>\<open>undefined\<close>, \<^verbatim>\<open>false\<close> or a pair
  \<^verbatim>\<open>{key, ttl}\<close>.\<close>

datatype resvar = ResUndefined | ResFalse | ResObj res

text \<open>Lines 99-116: the DNS-over-HTTPS lookup, whose errors are swallowed.\<close>

definition lookupDnsOverHttps :: "env \<Rightarrow> options \<Rightarrow> string \<Rightarrow> effect list \<times> resvar" where
  "lookupDnsOverHttps en opts name =
     (if \<not> noDnsOverHttps opts then
        (case fetchDnsOverHttpsRecord en name of
           (e1, Inl x) \<Rightarrow> (e1, ResFalse)
         | (e1, Inr r) \<Rightarrow>
             (case parseDnsOverHttpsRecord en name (body r) of
                (e2, Inl x) \<Rightarrow> (e1 @ e2, ResFalse)
              | (e2, Inr p) \<Rightarrow>
                  (e1 @ e2 @ [Emit (Resolved DnsOverHttps name (key p))], ResObj p)))
      else ([], ResUndefined))"

text \<open>Lines 118-148: the well-known lookup, made when \<^verbatim>\<open>res\<close> is falsy.\<close>

definition lookupWellKnown ::
  "env \<Rightarrow> options \<Rightarrow> string \<Rightarrow> resvar \<Rightarrow> effect list \<times> (error + resvar)" where
  "lookupWellKnown en opts name r0 =
     (if (case r0 of ResObj p \<Rightarrow> False | _ \<Rightarrow> True) \<and> \<not> noWellknownDat opts then
        (case fetchWellKnownRecord en name of
           (e1, r) \<Rightarrow>
             (if statusCode r = 0 \<or> statusCode r = 404 then
                (e1 @ [Emit (Failed WellKnown name (HttpCodeErr (statusCode r) (err r))),
                       McSet name (Bool False) (numOfInt 60)],
                 Inl (Error ''DNS record not found''))
              else if statusCode r \<noteq> 200 then
                (e1 @ [Emit (Failed WellKnown name (HttpCode (statusCode r)))],
                 Inl (Error ''DNS record not found''))
              else
                (case parseWellknownDatRecord en name (body r) of
                   (e2, Inl x) \<Rightarrow> (e1 @ e2, Inl x)
                 | (e2, Inr p) \<Rightarrow>
                     (e1 @ e2 @ [Emit (Resolved WellKnown name (key p))], Inr (ResObj p)))))
      else ([], Inr r0))"

text \<open>
  Lines 150-154. When \<^verbatim>\<open>res\<close> is \<^verbatim>\<open>undefined\<close> (both probes skipped),
  \<^verbatim>\<open>res.ttl\<close> throws a TypeError; when it is \<^verbatim>\<open>false\<close> (the DNS-over-HTTPS
  lookup failed and the well-known one is skipped), \<^verbatim>\<open>res.ttl\<close> and \<^verbatim>\<open>res.key\<close>
  are \<^verbatim>\<open>undefined\<close>.
\<close>

definition cacheResult :: "env \<Rightarrow> string \<Rightarrow> resvar \<Rightarrow> effect list \<times> (error + jsval)" where
  "cacheResult en name r =
     (case r of
        ResUndefined \<Rightarrow> ([], Inl TypeError)
      | ResFalse \<Rightarrow>
          ([McSet name Undefined Undefined]
           @ (case pCache_read en of
                Some rd \<Rightarrow> [PcWrite name Undefined Undefined]
              | None \<Rightarrow> []),
           Inr Undefined)
      | ResObj p \<Rightarrow>
          ((if ttl p \<noteq> 0 then [McSet name (Str (key p)) (numOfInt (ttl p))] else [])
           @ (case pCache_read en of
                Some rd \<Rightarrow> [PcWrite name (Str (key p)) (numOfInt (ttl p))]
              | None \<Rightarrow> []),
           Inr (Str (key p))))"

text \<open>Lines 98-148: the two lookups in sequence.\<close>

definition runProbes :: "env \<Rightarrow> options \<Rightarrow> string \<Rightarrow> effect list \<times> (error + resvar)" where
  "runProbes en opts name =
     (case lookupDnsOverHttps en opts name of
        (e1, r1) \<Rightarrow>
          (case lookupWellKnown en opts name r1 of
             (e2, r2) \<Rightarrow> (e1 @ e2, r2)))"

text \<open>Lines 85-154: the body of the \<^verbatim>\<open>try\<close>.\<close>

definition tryBlock :: "env \<Rightarrow> options \<Rightarrow> string \<Rightarrow> effect list \<times> (error + jsval)" where
  "tryBlock en opts name =
     (case checkCache en opts name of
        (e0, Some r) \<Rightarrow> (e0, r)
      | (e0, None) \<Rightarrow>
          (case runProbes en opts name of
             (e1, Inl x) \<Rightarrow> (e0 @ e1, Inl x)
           | (e1, Inr r2) \<Rightarrow>
               (case cacheResult en name r2 of
                  (e3, v) \<Rightarrow> (e0 @ e1 @ e3, v))))"

text \<open>\<^verbatim>\<open>resolveName\<close>: the effects of the call, and the value its promise resolves to
  or the error it rejects with.\<close>

definition resolveName :: "env \<Rightarrow> options \<Rightarrow> string \<Rightarrow> effect list \<times> (error + jsval)" where
  "resolveName en opts raw =
     (case normalizeName en raw of
        Inl e \<Rightarrow> ([], Inl e)
      | Inr name \<Rightarrow>
          (if hashRegex_test name then ([], Inr (Str (take 64 name)))
           else
             (case tryBlock en opts name of
                (es, Inr v) \<Rightarrow> (es, Inr v)
              | (es, Inl x) \<Rightarrow>
                  (case pCache_read en of
                     Some rd \<Rightarrow> (es @ [PcRead name x], rd name x)
                   | None \<Rightarrow> (es, Inl x)))))"

subsection \<open>Notions the statements use\<close>

text \<open>The probes a call invoked, in order, read off its effects.\<close>

definition probesInvoked :: "effect list \<Rightarrow> probe list" where
  "probesInvoked es = List.map_filter (\<lambda>e. case e of Fetch p n \<Rightarrow> Some p | _ \<Rightarrow> None) es"

text \<open>The effects that write to the memory cache, and those that read the persistent
  cache.\<close>

definition cacheWrites :: "effect list \<Rightarrow> effect list" where
  "cacheWrites es = filter (\<lambda>e. case e of McSet n v t \<Rightarrow> True | _ \<Rightarrow> False) es"

definition persistentReads :: "effect list \<Rightarrow> effect list" where
  "persistentReads es = filter (\<lambda>e. case e of PcRead n x \<Rightarrow> True | _ \<Rightarrow> False) es"

text \<open>
  The TTL rule as the specification words it: a raw TTL that is not a safe integer or is
  negative gives 3600, one above 604800 gives 604800, any other is kept.
\<close>

definition clampedTtl :: "jsval \<Rightarrow> int \<Rightarrow> bool" where
  "clampedTtl raw t =
     (if \<not> isSafeInteger raw \<or> toInt raw < 0 then t = 3600
      else if toInt raw > 604800 then t = 604800
      else numOfInt t = raw)"

text \<open>A string in lower case.\<close>

definition isLowercase :: "string \<Rightarrow> bool" where
  "isLowercase s = (map lower s = s)"

subsection \<open>Example environments\<close>

text \<open>
  \<^verbatim>\<open>url.parse\<close> on a string without scheme, slashes, \<^verbatim>\<open>?\<close>, \<^verbatim>\<open>#\<close> or white space:
  no host, and the string as the path.
\<close>

definition pathOnly :: "string \<Rightarrow> error + urlObject" where
  "pathOnly s = Inr \<lparr>hostname = None, pathname = Some s\<rparr>"

text \<open>A machine without network, an empty memory cache and no persistent cache.\<close>

definition offline :: env where
  "offline =
     \<lparr>url_parse = pathOnly,
      JSON_parse = (\<lambda>b. None),
      https_get = (\<lambda>r. TransportError ''ENOTFOUND''),
      mCache_get = (\<lambda>n. Undefined),
      pCache_read = None\<rparr>"

text \<open>\<^verbatim>\<open>resolveName(name)\<close> without options.\<close>

definition defaults :: options where
  "defaults =
     \<lparr>ignoreCache = False, ignoreCachedMiss = False,
      noDnsOverHttps = False, noWellknownDat = False\<rparr>"

text \<open>Three keys, and DNS-over-HTTPS bodies with what \<^verbatim>\<open>JSON.parse\<close> makes of them.\<close>

definition keyLow :: string where
  "keyLow = ''1111111111111111111111111111111111111111111111111111111111111111''"

definition keyHigh :: string where
  "keyHigh = ''ffffffffffffffffffffffffffffffffffffffffffffffffffffffffffffffff''"

definition keyUpper :: string where
  "keyUpper = ''40A7F6B6147AE695BCBCFF432F684C7BB5291EA339C28C1755896CDEB80BD2F9''"

definition answer :: "string \<Rightarrow> int \<Rightarrow> jsval" where
  "answer k t = Obj [(''data'', Str (''datkey='' @ k)), (''TTL'', numOfInt t)]"

definition answerList :: "jsval list \<Rightarrow> jsval" where
  "answerList ans = Obj [(''Answer'', Arr ans)]"

definition bodyLowHigh :: string where
  "bodyLowHigh =
     ''{\"Answer\":[{\"data\":\"datkey='' @ keyLow @ ''\",\"TTL\":300},''
     @ ''{\"data\":\"datkey='' @ keyHigh @ ''\",\"TTL\":100000000}]}''"

definition bodyHighLow :: string where
  "bodyHighLow =
     ''{\"Answer\":[{\"data\":\"datkey='' @ keyHigh @ ''\",\"TTL\":100000000},''
     @ ''{\"data\":\"datkey='' @ keyLow @ ''\",\"TTL\":300}]}''"

definition exampleJson :: "string \<Rightarrow> jsval option" where
  "exampleJson =
     map_of
       [(bodyLowHigh, answerList [answer keyLow 300, answer keyHigh 100000000]),
        (bodyHighLow, answerList [answer keyHigh 100000000, answer keyLow 300])]"

text \<open>
  A network in which \<^verbatim>\<open>lh.example\<close> and \<^verbatim>\<open>hl.example\<close> have TXT records (the
  same two, in opposite orders), \<^verbatim>\<open>zero.example\<close> serves a well-known file with a
  TTL of 0, \<^verbatim>\<open>busy.example\<close> answers 503, and no other host is reached.
\<close>

definition exampleNetwork :: "request \<Rightarrow> outcome" where
  "exampleNetwork r =
     (case map_of
        [(DnsQuery ''lh.example.'', Response 200 bodyLowHigh),
         (DnsQuery ''hl.example.'', Response 200 bodyHighLow),
         (WellKnownFile ''zero.example'', Response 200 (''dat://'' @ keyLow @ [CHR 0x0A] @ ''TTL=0'')),
         (WellKnownFile ''busy.example'', Response 503 [])] r of
        Some out \<Rightarrow> out
      | None \<Rightarrow> TransportError ''ENOTFOUND'')"

definition online :: env where
  "online =
     \<lparr>url_parse = pathOnly,
      JSON_parse = exampleJson,
      https_get = exampleNetwork,
      mCache_get = (\<lambda>n. Undefined),
      pCache_read = None\<rparr>"

text \<open>The persistent cache of \<^verbatim>\<open>test.js\<close> (lines 155-158): it knows \<^verbatim>\<open>foo\<close>
  and throws the error it is given for any other name.\<close>

definition fallbackRead :: "string \<Rightarrow> error \<Rightarrow> error + jsval" where
  "fallbackRead n e = (if n = ''foo'' then Inr (Str keyLow) else Inl e)"

definition withFallback :: env where
  "withFallback = online\<lparr>pCache_read := Some fallbackRead\<rparr>"

subsection \<open>Auxiliary notions of the proofs\<close>

text \<open>An effect that is an event; a list of effects with no probe call, no write to the
  memory cache and no read of the persistent cache; the condition of line 118.\<close>

definition isEmit :: "effect \<Rightarrow> bool" where
  "isEmit e = (case e of Emit ev \<Rightarrow> True | _ \<Rightarrow> False)"

definition quiet :: "effect list \<Rightarrow> bool" where
  "quiet es = (probesInvoked es = [] \<and> cacheWrites es = [] \<and> persistentReads es = [])"

definition wkInvoked :: "options \<Rightarrow> resvar \<Rightarrow> bool" where
  "wkInvoked opts r0 = ((case r0 of ResObj p \<Rightarrow> False | _ \<Rightarrow> True) \<and> \<not> noWellknownDat opts)"

section \<open>Lemmas\<close>

subsection \<open>Reading effects\<close>

lemma probesInvoked_append [simp]: "probesInvoked (xs @ ys) = probesInvoked xs @ probesInvoked ys"
  by (simp add: probesInvoked_def map_filter_def)

lemma cacheWrites_append [simp]: "cacheWrites (xs @ ys) = cacheWrites xs @ cacheWrites ys"
  by (simp add: cacheWrites_def)

lemma persistentReads_append [simp]: "persistentReads (xs @ ys) = persistentReads xs @ persistentReads ys"
  by (simp add: persistentReads_def)

lemma probesInvoked_simps [simp]:
  "probesInvoked [] = []"
  "probesInvoked (Fetch p n # es) = p # probesInvoked es"
  "probesInvoked (McGet n # es) = probesInvoked es"
  "probesInvoked (McSet n v t # es) = probesInvoked es"
  "probesInvoked (HttpsGet r # es) = probesInvoked es"
  "probesInvoked (Emit ev # es) = probesInvoked es"
  "probesInvoked (PcWrite n v t # es) = probesInvoked es"
  "probesInvoked (PcRead n x # es) = probesInvoked es"
  by (simp_all add: probesInvoked_def map_filter_def)

lemma cacheWrites_simps [simp]:
  "cacheWrites [] = []"
  "cacheWrites (McSet n v t # es) = McSet n v t # cacheWrites es"
  "cacheWrites (Fetch p n # es) = cacheWrites es"
  "cacheWrites (McGet n # es) = cacheWrites es"
  "cacheWrites (HttpsGet r # es) = cacheWrites es"
  "cacheWrites (Emit ev # es) = cacheWrites es"
  "cacheWrites (PcWrite n v t # es) = cacheWrites es"
  "cacheWrites (PcRead n x # es) = cacheWrites es"
  by (simp_all add: cacheWrites_def)

lemma persistentReads_simps [simp]:
  "persistentReads [] = []"
  "persistentReads (PcRead n x # es) = PcRead n x # persistentReads es"
  "persistentReads (Fetch p n # es) = persistentReads es"
  "persistentReads (McGet n # es) = persistentReads es"
  "persistentReads (McSet n v t # es) = persistentReads es"
  "persistentReads (HttpsGet r # es) = persistentReads es"
  "persistentReads (Emit ev # es) = persistentReads es"
  "persistentReads (PcWrite n v t # es) = persistentReads es"
  by (simp_all add: persistentReads_def)

lemma emits_project:
  assumes "list_all isEmit es"
  shows "probesInvoked es = []" and "cacheWrites es = []" and "persistentReads es = []"
  using assms by (induction es) (auto simp: isEmit_def split: effect.splits)

lemma quiet_emits: "list_all isEmit es \<Longrightarrow> quiet es"
  by (simp add: quiet_def emits_project)

subsection \<open>The effects of each block\<close>

lemma winningAnswer_emits: "winningAnswer en name b = (es, r) \<Longrightarrow> list_all isEmit es"
  by (auto simp: winningAnswer_def isEmit_def split: option.splits sum.splits jsval.splits list.splits)

lemma parseDoh_emits: "parseDnsOverHttpsRecord en name b = (es, r) \<Longrightarrow> list_all isEmit es"
  by (auto simp: parseDnsOverHttpsRecord_def Let_def split: prod.splits sum.splits
           dest: winningAnswer_emits)

lemma parseTtlLine_emits: "parseTtlLine name ls = (es, r) \<Longrightarrow> list_all isEmit es"
  by (auto simp: parseTtlLine_def isEmit_def split: option.splits if_splits)

lemma parseWk_emits: "parseWellknownDatRecord en name b = (es, r) \<Longrightarrow> list_all isEmit es"
  by (auto simp: parseWellknownDatRecord_def Let_def isEmit_def
           split: prod.splits option.splits if_splits dest: parseTtlLine_emits)

lemma checkCache_effects:
  "fst (checkCache en opts name) = (if ignoreCache opts then [] else [McGet name])"
  by (simp add: checkCache_def Let_def)

lemma lookupDoh_skipped:
  "noDnsOverHttps opts \<Longrightarrow> lookupDnsOverHttps en opts name = ([], ResUndefined)"
  by (simp add: lookupDnsOverHttps_def)

lemma fetchDoh_effects:
  "fetchDnsOverHttpsRecord en name = (es, r) \<Longrightarrow>
     \<exists>ems. es = Fetch DnsOverHttps name # ems \<and> quiet ems"
  by (auto simp: fetchDnsOverHttpsRecord_def Let_def quiet_def)

lemma lookupDoh_effects:
  assumes "\<not> noDnsOverHttps opts" and "lookupDnsOverHttps en opts name = (es, r)"
  shows "\<exists>ems. es = Fetch DnsOverHttps name # ems \<and> quiet ems" and "r \<noteq> ResUndefined"
proof -
  obtain e1 x where f: "fetchDnsOverHttpsRecord en name = (e1, x)"
    by (cases "fetchDnsOverHttpsRecord en name")
  from fetchDoh_effects [OF f] obtain ems where e1: "e1 = Fetch DnsOverHttps name # ems" and q: "quiet ems"
    by blast
  show "\<exists>ems. es = Fetch DnsOverHttps name # ems \<and> quiet ems"
  proof (cases x)
    case (Inl a)
    with assms f e1 q show ?thesis by (auto simp: lookupDnsOverHttps_def)
  next
    case (Inr resp)
    obtain e2 y where p: "parseDnsOverHttpsRecord en name (body resp) = (e2, y)"
      by (cases "parseDnsOverHttpsRecord en name (body resp)")
    from quiet_emits [OF parseDoh_emits [OF p]] have "quiet e2" .
    with assms f e1 q Inr p show ?thesis
      by (cases y) (auto simp: lookupDnsOverHttps_def quiet_def)
  qed
  from assms show "r \<noteq> ResUndefined"
    by (auto simp: lookupDnsOverHttps_def split: prod.splits sum.splits)
qed


lemma fetchWk_effects:
  "fetchWellKnownRecord en name =
     ([Fetch WellKnown name, HttpsGet (WellKnownFile name)], toResponse (https_get en (WellKnownFile name)))"
  by (simp add: fetchWellKnownRecord_def)

lemma lookupWk_not_invoked:
  "\<not> wkInvoked opts r0 \<Longrightarrow> lookupWellKnown en opts name r0 = ([], Inr r0)"
  by (auto simp: lookupWellKnown_def wkInvoked_def)

lemma lookupWk_invoked:
  assumes "wkInvoked opts r0" and "lookupWellKnown en opts name r0 = (es, r)"
      and "sc = statusCode (toResponse (https_get en (WellKnownFile name)))"
  shows "probesInvoked es = [WellKnown]"
    and "persistentReads es = []"
    and "sc = 0 \<or> sc = 404 \<Longrightarrow>
           cacheWrites es = [McSet name (Bool False) (numOfInt 60)]
           \<and> r = Inl (Error ''DNS record not found'')
           \<and> (\<exists>pre. es = pre @ [McSet name (Bool False) (numOfInt 60)])"
    and "sc \<noteq> 0 \<Longrightarrow> sc \<noteq> 404 \<Longrightarrow> cacheWrites es = []"
    and "sc \<noteq> 0 \<Longrightarrow> sc \<noteq> 404 \<Longrightarrow> sc \<noteq> 200 \<Longrightarrow> r = Inl (Error ''DNS record not found'')"
    and "r = Inr r' \<Longrightarrow> \<exists>p. r' = ResObj p \<and> Emit (Resolved WellKnown name (key p)) \<in> set es"
proof -
  obtain e2 y where p: "parseWellknownDatRecord en name (body (toResponse (https_get en (WellKnownFile name)))) = (e2, y)"
    by (cases "parseWellknownDatRecord en name (body (toResponse (https_get en (WellKnownFile name))))")
  from quiet_emits [OF parseWk_emits [OF p]] have q: "quiet e2" .
  from assms(1) have c: "(case r0 of ResObj p \<Rightarrow> False | _ \<Rightarrow> True) \<and> \<not> noWellknownDat opts"
    by (simp add: wkInvoked_def)
  from assms(2) c p have es:
    "(es, r) = (if sc = 0 \<or> sc = 404 then
                ([Fetch WellKnown name, HttpsGet (WellKnownFile name),
                  Emit (Failed WellKnown name (HttpCodeErr sc (err (toResponse (https_get en (WellKnownFile name)))))),
                  McSet name (Bool False) (numOfInt 60)],
                 Inl (Error ''DNS record not found''))
              else if sc \<noteq> 200 then
                ([Fetch WellKnown name, HttpsGet (WellKnownFile name), Emit (Failed WellKnown name (HttpCode sc))],
                 Inl (Error ''DNS record not found''))
              else (case y of Inl x \<Rightarrow> ([Fetch WellKnown name, HttpsGet (WellKnownFile name)] @ e2, Inl x)
                     | Inr p \<Rightarrow> ([Fetch WellKnown name, HttpsGet (WellKnownFile name)] @ e2 @ [Emit (Resolved WellKnown name (key p))], Inr (ResObj p))))"
    unfolding lookupWellKnown_def fetchWk_effects assms(3)
    by (auto split: sum.splits if_splits)
  from es q show "probesInvoked es = [WellKnown]"
    by (auto simp: quiet_def split: if_splits sum.splits)
  from es q show "persistentReads es = []"
    by (auto simp: quiet_def split: if_splits sum.splits)
  from es show "sc = 0 \<or> sc = 404 \<Longrightarrow>
           cacheWrites es = [McSet name (Bool False) (numOfInt 60)]
           \<and> r = Inl (Error ''DNS record not found'')
           \<and> (\<exists>pre. es = pre @ [McSet name (Bool False) (numOfInt 60)])"
    by auto
  from es q show "sc \<noteq> 0 \<Longrightarrow> sc \<noteq> 404 \<Longrightarrow> cacheWrites es = []"
    by (auto simp: quiet_def split: if_splits sum.splits)
  from es show "sc \<noteq> 0 \<Longrightarrow> sc \<noteq> 404 \<Longrightarrow> sc \<noteq> 200 \<Longrightarrow> r = Inl (Error ''DNS record not found'')"
    by auto
  from es show "r = Inr r' \<Longrightarrow> \<exists>p. r' = ResObj p \<and> Emit (Resolved WellKnown name (key p)) \<in> set es"
    by (auto split: if_splits sum.splits)
qed

lemma cacheResult_effects:
  "cacheResult en name r = (es, v) \<Longrightarrow> probesInvoked es = [] \<and> persistentReads es = []"
  by (auto simp: cacheResult_def split: resvar.splits option.splits)

lemma cacheResult_zero:
  "ttl p = 0 \<Longrightarrow> cacheResult en name (ResObj p) = (es, v) \<Longrightarrow> cacheWrites es = [] \<and> v = Inr (Str (key p))"
  by (auto simp: cacheResult_def split: option.splits)

subsection \<open>The body of the try\<close>

lemma tryBlock_cached:
  "snd (checkCache en opts name) = Some r \<Longrightarrow>
     tryBlock en opts name = (fst (checkCache en opts name), r)"
  by (cases "checkCache en opts name") (simp add: tryBlock_def)

lemma tryBlock_probes:
  "snd (checkCache en opts name) = None \<Longrightarrow>
     tryBlock en opts name =
       (case runProbes en opts name of
          (e1, Inl x) \<Rightarrow> (fst (checkCache en opts name) @ e1, Inl x)
        | (e1, Inr r2) \<Rightarrow>
            (case cacheResult en name r2 of
               (e3, v) \<Rightarrow> (fst (checkCache en opts name) @ e1 @ e3, v)))"
  by (cases "checkCache en opts name") (simp add: tryBlock_def)

lemma checkCache_quiet: "quiet (fst (checkCache en opts name))"
  by (simp add: checkCache_effects quiet_def)

lemma runProbes_effects:
  assumes "lookupDnsOverHttps en opts name = (e1, r1)" and "runProbes en opts name = (es, r)"
  shows "probesInvoked es =
           (if noDnsOverHttps opts then [] else [DnsOverHttps])
           @ (if wkInvoked opts r1 then [WellKnown] else [])"
    and "persistentReads es = []"
    and "\<exists>e2. es = e1 @ e2 \<and> lookupWellKnown en opts name r1 = (e2, r)"
proof -
  obtain e2 where w: "lookupWellKnown en opts name r1 = (e2, r)" and es: "es = e1 @ e2"
    using assms by (auto simp: runProbes_def split: prod.splits)
  have "probesInvoked e1 = (if noDnsOverHttps opts then [] else [DnsOverHttps])
        \<and> persistentReads e1 = []"
    using assms(1) lookupDoh_skipped [of opts en name] lookupDoh_effects(1) [of opts en name e1 r1]
    by (cases "noDnsOverHttps opts") (auto simp: quiet_def)
  then have p1: "probesInvoked e1 = (if noDnsOverHttps opts then [] else [DnsOverHttps])"
    and q1: "persistentReads e1 = []" by simp_all
  have "probesInvoked e2 = (if wkInvoked opts r1 then [WellKnown] else [])
        \<and> persistentReads e2 = []"
    using w lookupWk_not_invoked [of opts r1 en name] lookupWk_invoked(1,2) [of opts r1 en name e2 r]
    by (cases "wkInvoked opts r1") auto
  then have p2: "probesInvoked e2 = (if wkInvoked opts r1 then [WellKnown] else [])"
    and q2: "persistentReads e2 = []" by simp_all
  from es p1 p2 show "probesInvoked es =
           (if noDnsOverHttps opts then [] else [DnsOverHttps])
           @ (if wkInvoked opts r1 then [WellKnown] else [])" by simp
  from es q1 q2 show "persistentReads es = []" by simp
  from es w show "\<exists>e2. es = e1 @ e2 \<and> lookupWellKnown en opts name r1 = (e2, r)" by blast
qed

lemma resolveName_probes:
  "probesInvoked (fst (resolveName en opts raw)) =
     (case normalizeName en raw of
        Inl e \<Rightarrow> []
      | Inr name \<Rightarrow> if hashRegex_test name then [] else probesInvoked (fst (tryBlock en opts name)))"
  by (auto simp: resolveName_def split: sum.splits prod.splits option.splits)

lemma resolveName_writes:
  "cacheWrites (fst (resolveName en opts raw)) =
     (case normalizeName en raw of
        Inl e \<Rightarrow> []
      | Inr name \<Rightarrow> if hashRegex_test name then [] else cacheWrites (fst (tryBlock en opts name)))"
  by (auto simp: resolveName_def split: sum.splits prod.splits option.splits)

lemma tryBlock_probesInvoked:
  "probesInvoked (fst (tryBlock en opts name)) =
     (case snd (checkCache en opts name) of
        Some r \<Rightarrow> []
      | None \<Rightarrow>
          (if noDnsOverHttps opts then [] else [DnsOverHttps])
          @ (if wkInvoked opts (snd (lookupDnsOverHttps en opts name)) then [WellKnown] else []))"
proof (cases "snd (checkCache en opts name)")
  case (Some r)
  then show ?thesis
    using checkCache_quiet [of en opts name] by (simp add: tryBlock_cached quiet_def)
next
  case None
  obtain e1 r1 where d: "lookupDnsOverHttps en opts name = (e1, r1)"
    by (cases "lookupDnsOverHttps en opts name")
  obtain es r where p: "runProbes en opts name = (es, r)"
    by (cases "runProbes en opts name")
  note pe = runProbes_effects(1) [OF d p]
  show ?thesis
  proof (cases r)
    case (Inl x)
    with None d p pe checkCache_quiet [of en opts name] show ?thesis
      by (simp add: tryBlock_probes quiet_def)
  next
    case (Inr r2)
    obtain e3 v where c: "cacheResult en name r2 = (e3, v)"
      by (cases "cacheResult en name r2")
    with Inr None d p pe checkCache_quiet [of en opts name] cacheResult_effects [OF c] show ?thesis
      by (simp add: tryBlock_probes quiet_def)
  qed
qed

lemma tryBlock_reads: "persistentReads (fst (tryBlock en opts name)) = []"
proof (cases "snd (checkCache en opts name)")
  case (Some r)
  then show ?thesis
    using checkCache_quiet [of en opts name] by (simp add: tryBlock_cached quiet_def)
next
  case None
  obtain e1 r1 where d: "lookupDnsOverHttps en opts name = (e1, r1)"
    by (cases "lookupDnsOverHttps en opts name")
  obtain es r where p: "runProbes en opts name = (es, r)"
    by (cases "runProbes en opts name")
  note pe = runProbes_effects(2) [OF d p]
  show ?thesis
  proof (cases r)
    case (Inl x)
    with None p pe checkCache_quiet [of en opts name] show ?thesis
      by (simp add: tryBlock_probes quiet_def)
  next
    case (Inr r2)
    obtain e3 v where c: "cacheResult en name r2 = (e3, v)"
      by (cases "cacheResult en name r2")
    with Inr None p pe checkCache_quiet [of en opts name] cacheResult_effects [OF c] show ?thesis
      by (simp add: tryBlock_probes quiet_def)
  qed
qed

lemma tryBlock_failure:
  assumes "tryBlock en opts name = (es, Inl x)"
  shows "snd (checkCache en opts name) = Some (Inl x)
       \<or> (snd (checkCache en opts name) = None
            \<and> noDnsOverHttps opts \<and> noWellknownDat opts \<and> x = TypeError \<and> probesInvoked es = [])
       \<or> (snd (checkCache en opts name) = None
            \<and> \<not> noWellknownDat opts
            \<and> (noDnsOverHttps opts \<or> snd (lookupDnsOverHttps en opts name) = ResFalse)
            \<and> snd (lookupWellKnown en opts name (snd (lookupDnsOverHttps en opts name))) = Inl x
            \<and> probesInvoked es = (if noDnsOverHttps opts then [] else [DnsOverHttps]) @ [WellKnown])"
proof (cases "snd (checkCache en opts name)")
  case (Some r)
  with assms show ?thesis by (simp add: tryBlock_cached)
next
  case None
  obtain e1 r1 where d: "lookupDnsOverHttps en opts name = (e1, r1)"
    by (cases "lookupDnsOverHttps en opts name")
  obtain ep r where p: "runProbes en opts name = (ep, r)"
    by (cases "runProbes en opts name")
  from runProbes_effects(3) [OF d p] obtain e2 where
    w: "lookupWellKnown en opts name r1 = (e2, r)" by blast
  have pi: "probesInvoked es =
     (if noDnsOverHttps opts then [] else [DnsOverHttps]) @ (if wkInvoked opts r1 then [WellKnown] else [])"
    using tryBlock_probesInvoked [of en opts name] assms None d by simp
  have r1u: "noDnsOverHttps opts \<Longrightarrow> r1 = ResUndefined"
    using lookupDoh_skipped [of opts en name] d by simp
  have r1d: "\<not> noDnsOverHttps opts \<Longrightarrow> r1 \<noteq> ResUndefined"
    using lookupDoh_effects(2) [of opts en name e1 r1] d by simp
  show ?thesis
  proof (cases r)
    case (Inl y)
    with assms None p have xy: "y = x" by (simp add: tryBlock_probes)
    have inv: "wkInvoked opts r1"
      using w Inl lookupWk_not_invoked [of opts r1 en name] by auto
    then have nw: "\<not> noWellknownDat opts" and nobj: "\<forall>q. r1 \<noteq> ResObj q"
      by (auto simp: wkInvoked_def)
    have "noDnsOverHttps opts \<or> r1 = ResFalse"
      using r1d nobj by (cases r1) auto
    with None nw w Inl xy d pi inv show ?thesis by simp
  next
    case (Inr r2)
    obtain e3 v where c: "cacheResult en name r2 = (e3, v)"
      by (cases "cacheResult en name r2")
    with assms None p Inr have v: "v = Inl x" by (simp add: tryBlock_probes)
    with c have r2: "r2 = ResUndefined" and x: "x = TypeError"
      by (auto simp: cacheResult_def split: resvar.splits)
    have ninv: "\<not> wkInvoked opts r1"
      using lookupWk_invoked(6) [of opts r1 en name e2 r _ r2] w Inr r2 by auto
    with w Inr r2 have "r1 = ResUndefined"
      by (simp add: lookupWk_not_invoked)
    with r1d ninv have "noDnsOverHttps opts \<and> noWellknownDat opts"
      by (auto simp: wkInvoked_def)
    with None x pi ninv show ?thesis by simp
  qed
qed

subsection \<open>Keys and TTLs\<close>

lemma hashRegex_take: "hashRegex_test name \<Longrightarrow> take 64 name = name"
  by (simp add: hashRegex_test_def)

lemma safe_toInt: "isSafeInteger raw \<Longrightarrow> numOfInt (toInt raw) = raw"
  by (auto simp: isSafeInteger_def toInt_def split: jsval.splits number.splits)

lemma clamp_steps:
  "clampedTtl raw
     (let t1 = (if \<not> isSafeInteger raw \<or> toInt raw < 0 then DEFAULT_DAT_DNS_TTL else toInt raw)
      in if t1 > MAX_DAT_DNS_TTL then MAX_DAT_DNS_TTL else t1)"
  by (auto simp: clampedTtl_def Let_def DEFAULT_DAT_DNS_TTL_def MAX_DAT_DNS_TTL_def safe_toInt)

subsection \<open>Writes to the memory cache\<close>

lemma runProbes_writes:
  assumes "lookupDnsOverHttps en opts name = (e1, r1)" and "runProbes en opts name = (es, r)"
      and "sc = statusCode (toResponse (https_get en (WellKnownFile name)))"
  shows "cacheWrites es =
           (if wkInvoked opts r1 \<and> (sc = 0 \<or> sc = 404)
            then [McSet name (Bool False) (numOfInt 60)] else [])"
    and "wkInvoked opts r1 \<Longrightarrow> sc = 0 \<or> sc = 404 \<Longrightarrow>
           r = Inl (Error ''DNS record not found'')
           \<and> (\<exists>pre. es = pre @ [McSet name (Bool False) (numOfInt 60)])"
    and "wkInvoked opts r1 \<Longrightarrow> sc \<noteq> 0 \<Longrightarrow> sc \<noteq> 404 \<Longrightarrow> sc \<noteq> 200 \<Longrightarrow>
           r = Inl (Error ''DNS record not found'')"
proof -
  from runProbes_effects(3) [OF assms(1,2)] obtain e2 where
    es: "es = e1 @ e2" and w: "lookupWellKnown en opts name r1 = (e2, r)" by blast
  have w1: "cacheWrites e1 = []"
    using assms(1) lookupDoh_skipped [of opts en name] lookupDoh_effects(1) [of opts en name e1 r1]
    by (cases "noDnsOverHttps opts") (auto simp: quiet_def)
  show "cacheWrites es =
           (if wkInvoked opts r1 \<and> (sc = 0 \<or> sc = 404)
            then [McSet name (Bool False) (numOfInt 60)] else [])"
  proof (cases "wkInvoked opts r1")
    case True
    from lookupWk_invoked(3,4) [OF True w assms(3)] True es w1 show ?thesis by auto
  next
    case False
    with lookupWk_not_invoked [OF False, of en name] w es w1 show ?thesis by simp
  qed
  show "wkInvoked opts r1 \<Longrightarrow> sc = 0 \<or> sc = 404 \<Longrightarrow>
           r = Inl (Error ''DNS record not found'')
           \<and> (\<exists>pre. es = pre @ [McSet name (Bool False) (numOfInt 60)])"
  proof -
    assume i: "wkInvoked opts r1" and c: "sc = 0 \<or> sc = 404"
    from lookupWk_invoked(3) [OF i w assms(3) c] obtain pre where
      "r = Inl (Error ''DNS record not found'')" and "e2 = pre @ [McSet name (Bool False) (numOfInt 60)]"
      by blast
    with es have "r = Inl (Error ''DNS record not found'')"
      and "es = (e1 @ pre) @ [McSet name (Bool False) (numOfInt 60)]" by simp_all
    then show ?thesis by blast
  qed
  show "wkInvoked opts r1 \<Longrightarrow> sc \<noteq> 0 \<Longrightarrow> sc \<noteq> 404 \<Longrightarrow> sc \<noteq> 200 \<Longrightarrow>
           r = Inl (Error ''DNS record not found'')"
    using lookupWk_invoked(5) [OF _ w assms(3)] by blast
qed

lemma runProbes_result_writes:
  assumes "runProbes en opts name = (es, Inr r2)"
  shows "cacheWrites es = []"
proof -
  obtain e1 r1 where d: "lookupDnsOverHttps en opts name = (e1, r1)"
    by (cases "lookupDnsOverHttps en opts name")
  define sc where "sc = statusCode (toResponse (https_get en (WellKnownFile name)))"
  from runProbes_writes(1,2) [OF d assms sc_def] show ?thesis
    by (cases "wkInvoked opts r1 \<and> (sc = 0 \<or> sc = 404)") auto
qed

lemma hashRegex_empty: "\<not> hashRegex_test []"
  by (simp add: hashRegex_test_def)

lemma tryBlock_silent:
  assumes "fst (tryBlock en opts name) = []"
  shows "snd (tryBlock en opts name) = Inl TypeError"
proof -
  from assms have pi: "probesInvoked (fst (tryBlock en opts name)) = []" by simp
  have ic: "ignoreCache opts"
  proof (rule ccontr)
    assume "\<not> ignoreCache opts"
    then have "fst (checkCache en opts name) = [McGet name]" by (simp add: checkCache_effects)
    with assms show False
      by (cases "snd (checkCache en opts name)")
         (auto simp: tryBlock_cached tryBlock_probes split: prod.splits sum.splits)
  qed
  then have cc: "checkCache en opts name = ([], None)" by (simp add: checkCache_def)
  with pi have sk: "noDnsOverHttps opts"
    and nw: "\<not> wkInvoked opts (snd (lookupDnsOverHttps en opts name))"
    by (auto simp: tryBlock_probesInvoked split: if_splits)
  from sk have d: "lookupDnsOverHttps en opts name = ([], ResUndefined)"
    by (rule lookupDoh_skipped)
  with nw have w: "lookupWellKnown en opts name ResUndefined = ([], Inr ResUndefined)"
    by (simp add: lookupWk_not_invoked)
  from cc d w show ?thesis
    by (simp add: tryBlock_def runProbes_def cacheResult_def)
qed

subsection \<open>Sorting the answers\<close>

lemma mset_insertBy: "mset (insertBy cmp x xs) = add_mset x (mset xs)"
  by (induction xs) auto

lemma mset_sortBy: "mset (sortBy cmp xs) = mset xs"
  by (induction xs) (simp_all add: sortBy_def mset_insertBy)

lemma set_sortBy: "set (sortBy cmp xs) = set xs"
  using mset_sortBy [of cmp xs] by (metis set_mset_mset)

lemma set_insertBy: "set (insertBy cmp x xs) = insert x (set xs)"
  using mset_insertBy [of cmp x xs] by (metis set_mset_mset set_mset_add_mset_insert)

lemma sorted_insertBy:
  "sorted_wrt (\<lambda>a b. fst b \<le> fst a) xs \<Longrightarrow>
     sorted_wrt (\<lambda>a b. fst b \<le> fst a) (insertBy compareKeys x xs)"
proof (induction xs)
  case Nil
  then show ?case by simp
next
  case (Cons y ys)
  show ?case
  proof (cases "compareKeys x y \<le> 0")
    case True
    then have "fst y \<le> fst x"
      by (auto simp: compareKeys_def split: if_splits)
    with Cons.prems True show ?thesis by auto
  next
    case False
    then have "fst x \<le> fst y"
      by (auto simp: compareKeys_def split: if_splits)
    with Cons False show ?thesis by (auto simp: set_insertBy)
  qed
qed

lemma sorted_sortBy: "sorted_wrt (\<lambda>a b. fst b \<le> fst a) (sortBy compareKeys xs)"
proof (induction xs)
  case Nil
  then show ?case by (simp add: sortBy_def)
next
  case (Cons x xs)
  then show ?case using sorted_insertBy [of "sortBy compareKeys xs" x] by (simp add: sortBy_def)
qed

lemma sortBy_head:
  assumes "sortBy compareKeys xs = ka # rest"
  shows "ka \<in> set xs" and "\<forall>z \<in> set xs. fst z \<le> fst ka"
proof -
  have s: "set xs = insert ka (set rest)"
    using set_sortBy [of compareKeys xs] assms by simp
  then show "ka \<in> set xs" by simp
  from sorted_sortBy [of xs] assms have "\<forall>z \<in> set rest. fst z \<le> fst ka" by simp
  with s show "\<forall>z \<in> set xs. fst z \<le> fst ka" by simp
qed

lemma sortBy_nonempty: "xs \<noteq> [] \<Longrightarrow> sortBy cmp xs \<noteq> []"
  using mset_sortBy [of cmp xs] by (metis mset_zero_iff)

lemma validAnswers_perm: "mset ans' = mset ans \<Longrightarrow> mset (validAnswers ans') = mset (validAnswers ans)"
  by (simp add: validAnswers_def map_filter_def)

lemma winningAnswer_ok:
  assumes "JSON_parse en b = Some rcd" and "getProp rcd ''Answer'' = Inr (Arr ans)"
      and "validAnswers ans \<noteq> []"
  shows "\<exists>k a. winningAnswer en name b = ([], Inr (k, a))
           \<and> (k, a) \<in> set (validAnswers ans)
           \<and> k = Max (fst ` set (validAnswers ans))"
proof -
  from sortBy_nonempty [OF assms(3)] obtain k a rest where
    s: "sortBy compareKeys (validAnswers ans) = (k, a) # rest"
    by (cases "sortBy compareKeys (validAnswers ans)") auto
  from sortBy_head [OF s] have m: "(k, a) \<in> set (validAnswers ans)"
    and u: "\<forall>z \<in> set (validAnswers ans). fst z \<le> k" by simp_all
  have "Max (fst ` set (validAnswers ans)) = k"
  proof (rule Max_eqI)
    show "finite (fst ` set (validAnswers ans))" by simp
    show "\<And>y. y \<in> fst ` set (validAnswers ans) \<Longrightarrow> y \<le> k" using u by auto
    show "k \<in> fst ` set (validAnswers ans)" using m by force
  qed
  with assms s m show ?thesis by (simp add: winningAnswer_def)
qed

subsection \<open>The catch\<close>

text \<open>
  When the body of the \<^verbatim>\<open>try\<close> throws, a configured persistent cache is read with the
  name and the error, as the last effect of the call, and what it returns or throws is
  the outcome; without one the error propagates. The body throws when a cached miss is
  honoured, when both probes are skipped, or when the well-known lookup throws.
\<close>

lemma catch_reads_persistent_cache:
  assumes "normalizeName en raw = Inr name" and "\<not> hashRegex_test name"
      and "tryBlock en opts name = (es, r)"
  shows "persistentReads es = []
       \<and> (case r of
            Inr v \<Rightarrow> resolveName en opts raw = (es, Inr v)
          | Inl x \<Rightarrow>
              (case pCache_read en of
                 Some rd \<Rightarrow> resolveName en opts raw = (es @ [PcRead name x], rd name x)
               | None \<Rightarrow> resolveName en opts raw = (es, Inl x))
              \<and> (snd (checkCache en opts name) = Some (Inl x)
                 \<or> (snd (checkCache en opts name) = None
                      \<and> noDnsOverHttps opts \<and> noWellknownDat opts \<and> probesInvoked es = [])
                 \<or> (snd (checkCache en opts name) = None
                      \<and> \<not> noWellknownDat opts
                      \<and> (noDnsOverHttps opts \<or> snd (lookupDnsOverHttps en opts name) = ResFalse)
                      \<and> snd (lookupWellKnown en opts name (snd (lookupDnsOverHttps en opts name))) = Inl x
                      \<and> probesInvoked es =
                          (if noDnsOverHttps opts then [] else [DnsOverHttps]) @ [WellKnown])))"
proof -
  have "persistentReads es = []"
    using tryBlock_reads [of en opts name] assms(3) by simp
  moreover have "case r of
            Inr v \<Rightarrow> resolveName en opts raw = (es, Inr v)
          | Inl x \<Rightarrow>
              (case pCache_read en of
                 Some rd \<Rightarrow> resolveName en opts raw = (es @ [PcRead name x], rd name x)
               | None \<Rightarrow> resolveName en opts raw = (es, Inl x))
              \<and> (snd (checkCache en opts name) = Some (Inl x)
                 \<or> (snd (checkCache en opts name) = None
                      \<and> noDnsOverHttps opts \<and> noWellknownDat opts \<and> probesInvoked es = [])
                 \<or> (snd (checkCache en opts name) = None
                      \<and> \<not> noWellknownDat opts
                      \<and> (noDnsOverHttps opts \<or> snd (lookupDnsOverHttps en opts name) = ResFalse)
                      \<and> snd (lookupWellKnown en opts name (snd (lookupDnsOverHttps en opts name))) = Inl x
                      \<and> probesInvoked es =
                          (if noDnsOverHttps opts then [] else [DnsOverHttps]) @ [WellKnown]))"
  proof (cases r)
    case (Inr v)
    with assms show ?thesis by (simp add: resolveName_def)
  next
    case (Inl x)
    have a: "case pCache_read en of
                 Some rd \<Rightarrow> resolveName en opts raw = (es @ [PcRead name x], rd name x)
               | None \<Rightarrow> resolveName en opts raw = (es, Inl x)"
      using assms Inl by (simp add: resolveName_def split: option.splits)
    from tryBlock_failure [of en opts name es x] assms(3) Inl a show ?thesis
      by auto
  qed
  ultimately show ?thesis by blast
qed

section \<open>The claims\<close>



text \<open>
  C2. A call that ends in failure, by a probe failure among others, should give what
  \<^verbatim>\<open>persistentCache.read(name, err)\<close> returns or throws. When the DNS-over-HTTPS
  lookup fails and the well-known lookup is skipped, the call does not fail: \<^verbatim>\<open>res\<close>
  is \<^verbatim>\<open>false\<close>, so \<^verbatim>\<open>res.ttl\<close> and \<^verbatim>\<open>res.key\<close> are \<^verbatim>\<open>undefined\<close>, line 151
  writes \<^verbatim>\<open>undefined\<close> to the memory cache, line 152 to the persistent cache, and
  line 154 returns \<^verbatim>\<open>undefined\<close>. The persistent cache is never read. Here for
  \<^verbatim>\<open>resolveName('gone.example', {noWellknownDat: true})\<close> with the persistent cache
  of \<^verbatim>\<open>test.js\<close>, on a network that does not reach the DNS-over-HTTPS provider.
\<close>

theorem C2_probe_failure_returns_undefined:
  "snd (lookupDnsOverHttps withFallback (defaults\<lparr>noWellknownDat := True\<rparr>) ''gone.example'')
     = ResFalse
   \<and> resolveName withFallback (defaults\<lparr>noWellknownDat := True\<rparr>) ''gone.example''
     = ([McGet ''gone.example'',
         Fetch DnsOverHttps ''gone.example'',
         HttpsGet (DnsQuery ''gone.example.''),
         Emit (Failed DnsOverHttps ''gone.example'' BadJson),
         McSet ''gone.example'' Undefined Undefined,
         PcWrite ''gone.example'' Undefined Undefined],
        Inr Undefined)
   \<and> persistentReads
         (fst (resolveName withFallback (defaults\<lparr>noWellknownDat := True\<rparr>) ''gone.example''))
     = []"
proof -
  have a: "snd (lookupDnsOverHttps withFallback (defaults\<lparr>noWellknownDat := True\<rparr>) ''gone.example'')
     = ResFalse"
    by code_simp
  have b: "resolveName withFallback (defaults\<lparr>noWellknownDat := True\<rparr>) ''gone.example''
     = ([McGet ''gone.example'',
         Fetch DnsOverHttps ''gone.example'',
         HttpsGet (DnsQuery ''gone.example.''),
         Emit (Failed DnsOverHttps ''gone.example'' BadJson),
         McSet ''gone.example'' Undefined Undefined,
         PcWrite ''gone.example'' Undefined Undefined],
        Inr Undefined)"
    by code_simp
  from a b show ?thesis by simp
qed

text \<open>
  C3. For a body whose answer list has a valid candidate, \<^verbatim>\<open>parseDnsOverHttpsRecord\<close>
  returns the greatest candidate key (strings compared by code units), and the key it
  returns is the same for any permutation of the answer list. The pair
  \<^verbatim>\<open>{key, ttl}\<close> as a whole is the same too whenever the answers that carry this key
  agree on their TTL.
\<close>

theorem C3_greatest_key:
  assumes "JSON_parse en b = Some rcd" and "getProp rcd ''Answer'' = Inr (Arr ans)"
      and "validAnswers ans \<noteq> []"
      and "JSON_parse en b' = Some rcd'" and "getProp rcd' ''Answer'' = Inr (Arr ans')"
      and "mset ans' = mset ans"
  shows "\<exists>p p'. parseDnsOverHttpsRecord en name b = ([], Inr p)
           \<and> parseDnsOverHttpsRecord en name b' = ([], Inr p')
           \<and> key p = Max (fst ` set (validAnswers ans))
           \<and> key p' = key p
           \<and> ((\<forall>a a'. (key p, a) \<in> set (validAnswers ans) \<and> (key p, a') \<in> set (validAnswers ans)
                  \<longrightarrow> answerTTL a = answerTTL a') \<longrightarrow> p' = p)"
proof -
  have ms: "mset (validAnswers ans') = mset (validAnswers ans)"
    using assms(6) by (rule validAnswers_perm)
  then have st: "set (validAnswers ans') = set (validAnswers ans)"
    by (metis set_mset_mset)
  with assms(3) have ne: "validAnswers ans' \<noteq> []" by auto
  from winningAnswer_ok [OF assms(1-3), of name] obtain k a where
    w: "winningAnswer en name b = ([], Inr (k, a))" and m: "(k, a) \<in> set (validAnswers ans)"
    and k: "k = Max (fst ` set (validAnswers ans))" by blast
  from winningAnswer_ok [OF assms(4,5) ne, of name] st obtain k' a' where
    w': "winningAnswer en name b' = ([], Inr (k', a'))" and m': "(k', a') \<in> set (validAnswers ans)"
    and k': "k' = Max (fst ` set (validAnswers ans))" by auto
  define pol where "pol = (\<lambda>t0. let t1 = (if \<not> isSafeInteger t0 \<or> toInt t0 < 0
                                   then DEFAULT_DAT_DNS_TTL else toInt t0)
                        in if t1 > MAX_DAT_DNS_TTL then MAX_DAT_DNS_TTL else t1)"
  have p: "parseDnsOverHttpsRecord en name b = ([], Inr \<lparr>key = k, ttl = pol (answerTTL a)\<rparr>)"
    using w by (simp add: parseDnsOverHttpsRecord_def pol_def Let_def)
  have p': "parseDnsOverHttpsRecord en name b' = ([], Inr \<lparr>key = k', ttl = pol (answerTTL a')\<rparr>)"
    using w' by (simp add: parseDnsOverHttpsRecord_def pol_def Let_def)
  have kk: "k' = k" using k k' by simp
  let ?p = "\<lparr>key = k, ttl = pol (answerTTL a)\<rparr>"
  let ?p' = "\<lparr>key = k, ttl = pol (answerTTL a')\<rparr>"
  have 1: "parseDnsOverHttpsRecord en name b = ([], Inr ?p)" by (rule p)
  have 2: "parseDnsOverHttpsRecord en name b' = ([], Inr ?p')" using p' kk by simp
  have 3: "key ?p = Max (fst ` set (validAnswers ans))" using k by simp
  have 4: "key ?p' = key ?p" by simp
  have 5: "(\<forall>x y. (key ?p, x) \<in> set (validAnswers ans) \<and> (key ?p, y) \<in> set (validAnswers ans)
                  \<longrightarrow> answerTTL x = answerTTL y) \<longrightarrow> ?p' = ?p"
  proof
    assume "\<forall>x y. (key ?p, x) \<in> set (validAnswers ans) \<and> (key ?p, y) \<in> set (validAnswers ans)
                  \<longrightarrow> answerTTL x = answerTTL y"
    then have "\<forall>x y. (k, x) \<in> set (validAnswers ans) \<and> (k, y) \<in> set (validAnswers ans)
                  \<longrightarrow> answerTTL x = answerTTL y" by simp
    with m m' kk have "answerTTL a' = answerTTL a" by blast
    then show "?p' = ?p" by simp
  qed
  show ?thesis
    by (rule exI [of _ ?p], rule exI [of _ ?p'], intro conjI) (fact 1 2 3 4 5)+
qed

theorem C3_greatest_key_witness:
  "JSON_parse online bodyLowHigh = Some (answerList [answer keyLow 300, answer keyHigh 100000000])
   \<and> JSON_parse online bodyHighLow = Some (answerList [answer keyHigh 100000000, answer keyLow 300])
   \<and> validAnswers [answer keyLow 300, answer keyHigh 100000000]
       = [(keyLow, answer keyLow 300), (keyHigh, answer keyHigh 100000000)]
   \<and> Max (fst ` set (validAnswers [answer keyLow 300, answer keyHigh 100000000])) = keyHigh
   \<and> parseDnsOverHttpsRecord online ''lh.example'' bodyLowHigh = ([], Inr \<lparr>key = keyHigh, ttl = 604800\<rparr>)
   \<and> parseDnsOverHttpsRecord online ''lh.example'' bodyHighLow = ([], Inr \<lparr>key = keyHigh, ttl = 604800\<rparr>)"
proof -
  let ?lh = "[answer keyLow 300, answer keyHigh 100000000]"
  let ?hl = "[answer keyHigh 100000000, answer keyLow 300]"
  have a: "JSON_parse online bodyLowHigh = Some (answerList ?lh)" by code_simp
  have b: "JSON_parse online bodyHighLow = Some (answerList ?hl)" by code_simp
  have ga: "getProp (answerList ?lh) ''Answer'' = Inr (Arr ?lh)" by code_simp
  have gb: "getProp (answerList ?hl) ''Answer'' = Inr (Arr ?hl)" by code_simp
  have v: "validAnswers ?lh = [(keyLow, answer keyLow 300), (keyHigh, answer keyHigh 100000000)]"
    by code_simp
  then have ne: "validAnswers ?lh \<noteq> []" by simp
  have pm: "mset ?hl = mset ?lh" by simp
  have lt: "keyLow < keyHigh" by code_simp
  have mx: "Max (fst ` set (validAnswers ?lh)) = keyHigh"
    using lt less_imp_le [OF lt] by (simp add: v max_def)
  have tt: "answerTTL (answer keyHigh 100000000) = numOfInt 100000000" by code_simp
  have pa: "parseDnsOverHttpsRecord online ''lh.example'' bodyLowHigh = ([], Inr \<lparr>key = keyHigh, ttl = 604800\<rparr>)"
    by code_simp
  from C3_greatest_key [OF a ga ne b gb pm, of "''lh.example''"] obtain p p' where
    1: "parseDnsOverHttpsRecord online ''lh.example'' bodyLowHigh = ([], Inr p)"
    and 2: "parseDnsOverHttpsRecord online ''lh.example'' bodyHighLow = ([], Inr p')"
    and 3: "key p = Max (fst ` set (validAnswers ?lh))"
    and 4: "key p' = key p"
    and 5: "(\<forall>a a'. (key p, a) \<in> set (validAnswers ?lh) \<and> (key p, a') \<in> set (validAnswers ?lh)
                  \<longrightarrow> answerTTL a = answerTTL a') \<longrightarrow> p' = p"
    by blast
  from 3 mx have kp: "key p = keyHigh" by simp
  have "keyHigh \<noteq> keyLow" using lt by simp
  with 5 kp v have "p' = p" by auto
  with 1 2 pa have pb: "parseDnsOverHttpsRecord online ''lh.example'' bodyHighLow = ([], Inr \<lparr>key = keyHigh, ttl = 604800\<rparr>)"
    by simp
  from a b v mx pa pb show ?thesis by blast
qed

text \<open>
  C4. When the normalised name matches the key pattern, \<^verbatim>\<open>resolveName\<close> returns that
  name, 64 characters long, with no effect at all: no network access, no read or write of
  the memory cache, no event.
\<close>

theorem C4_key_fast_path:
  assumes "normalizeName en raw = Inr name" and "hashRegex_test name"
  shows "resolveName en opts raw = ([], Inr (Str name)) \<and> length name = 64"
  using assms by (simp add: resolveName_def hashRegex_take) (simp add: hashRegex_test_def)

theorem C4_key_fast_path_witness:
  "normalizeName offline ''40a7f6b6147ae695bcbcff432f684c7bb5291ea339c28c1755896cdeb80bd2f9+5''
     = Inr ''40a7f6b6147ae695bcbcff432f684c7bb5291ea339c28c1755896cdeb80bd2f9''
   \<and> hashRegex_test ''40a7f6b6147ae695bcbcff432f684c7bb5291ea339c28c1755896cdeb80bd2f9''
   \<and> resolveName offline defaults ''40a7f6b6147ae695bcbcff432f684c7bb5291ea339c28c1755896cdeb80bd2f9+5''
     = ([], Inr (Str ''40a7f6b6147ae695bcbcff432f684c7bb5291ea339c28c1755896cdeb80bd2f9''))"
proof -
  have n: "normalizeName offline ''40a7f6b6147ae695bcbcff432f684c7bb5291ea339c28c1755896cdeb80bd2f9+5''
     = Inr ''40a7f6b6147ae695bcbcff432f684c7bb5291ea339c28c1755896cdeb80bd2f9''"
    by code_simp
  have h: "hashRegex_test ''40a7f6b6147ae695bcbcff432f684c7bb5291ea339c28c1755896cdeb80bd2f9''"
    by code_simp
  from C4_key_fast_path [OF n h, of defaults] n h show ?thesis by blast
qed

text \<open>
  C5. When the well-known probe is invoked and its status code is 0 or 404, the call
  writes one entry to the memory cache, \<^verbatim>\<open>mCache.set(name, false, 60)\<close> for the
  normalised name, as the last effect of the \<^verbatim>\<open>try\<close>, which then throws
  \<^verbatim>\<open>DNS record not found\<close>; for any other status code but 200 the \<^verbatim>\<open>try\<close> throws
  the same error and the call writes nothing to the memory cache.
\<close>

theorem C5_negative_cache:
  assumes "normalizeName en raw = Inr name" and "\<not> hashRegex_test name"
      and "WellKnown \<in> set (probesInvoked (fst (resolveName en opts raw)))"
      and "sc = statusCode (toResponse (https_get en (WellKnownFile name)))"
  shows "(sc = 0 \<or> sc = 404 \<longrightarrow>
            cacheWrites (fst (resolveName en opts raw)) = [McSet name (Bool False) (numOfInt 60)]
            \<and> (\<exists>pre. fst (tryBlock en opts name) = pre @ [McSet name (Bool False) (numOfInt 60)])
            \<and> snd (tryBlock en opts name) = Inl (Error ''DNS record not found''))
       \<and> (sc \<noteq> 0 \<and> sc \<noteq> 404 \<and> sc \<noteq> 200 \<longrightarrow>
            cacheWrites (fst (resolveName en opts raw)) = []
            \<and> snd (tryBlock en opts name) = Inl (Error ''DNS record not found''))"
proof -
  obtain e1 r1 where d: "lookupDnsOverHttps en opts name = (e1, r1)"
    by (cases "lookupDnsOverHttps en opts name")
  obtain es r where p: "runProbes en opts name = (es, r)"
    by (cases "runProbes en opts name")
  from assms(1-3) have wk: "WellKnown \<in> set (probesInvoked (fst (tryBlock en opts name)))"
    by (simp add: resolveName_probes)
  then have none: "snd (checkCache en opts name) = None"
    by (cases "snd (checkCache en opts name)") (simp_all add: tryBlock_probesInvoked)
  from wk none d have inv: "wkInvoked opts r1"
    by (auto simp: tryBlock_probesInvoked split: if_splits)
  have cw: "cacheWrites (fst (resolveName en opts raw)) = cacheWrites (fst (tryBlock en opts name))"
    using assms(1,2) by (simp add: resolveName_writes)
  have q0: "cacheWrites (fst (checkCache en opts name)) = []"
    using checkCache_quiet [of en opts name] by (simp add: quiet_def)
  have fail: "r = Inl (Error ''DNS record not found'') \<Longrightarrow>
      tryBlock en opts name = (fst (checkCache en opts name) @ es, Inl (Error ''DNS record not found''))"
    using none p by (simp add: tryBlock_probes)
  show ?thesis
  proof (intro conjI impI)
    assume c: "sc = 0 \<or> sc = 404"
    from runProbes_writes(2) [OF d p assms(4) inv c] obtain pre where
      r: "r = Inl (Error ''DNS record not found'')"
      and es: "es = pre @ [McSet name (Bool False) (numOfInt 60)]" by blast
    from runProbes_writes(1) [OF d p assms(4)] inv c
    have w: "cacheWrites es = [McSet name (Bool False) (numOfInt 60)]" by simp
    from fail [OF r] w q0 cw
    show "cacheWrites (fst (resolveName en opts raw)) = [McSet name (Bool False) (numOfInt 60)]"
      by simp
    from fail [OF r] es
    have "fst (tryBlock en opts name) =
            (fst (checkCache en opts name) @ pre) @ [McSet name (Bool False) (numOfInt 60)]"
      by simp
    then show "\<exists>pre. fst (tryBlock en opts name) = pre @ [McSet name (Bool False) (numOfInt 60)]"
      by blast
    from fail [OF r] show "snd (tryBlock en opts name) = Inl (Error ''DNS record not found'')"
      by simp
  next
    assume c: "sc \<noteq> 0 \<and> sc \<noteq> 404 \<and> sc \<noteq> 200"
    from runProbes_writes(3) [OF d p assms(4) inv] c
    have r: "r = Inl (Error ''DNS record not found'')" by blast
    from runProbes_writes(1) [OF d p assms(4)] c have w: "cacheWrites es = []" by simp
    from fail [OF r] w q0 cw show "cacheWrites (fst (resolveName en opts raw)) = []" by simp
    from fail [OF r] show "snd (tryBlock en opts name) = Inl (Error ''DNS record not found'')"
      by simp
  qed
qed

theorem C5_negative_cache_witness:
  "normalizeName online ''gone.example'' = Inr ''gone.example'' \<and> \<not> hashRegex_test ''gone.example''
   \<and> probesInvoked (fst (resolveName online defaults ''gone.example'')) = [DnsOverHttps, WellKnown]
   \<and> statusCode (toResponse (https_get online (WellKnownFile ''gone.example''))) = 0
   \<and> cacheWrites (fst (resolveName online defaults ''gone.example''))
       = [McSet ''gone.example'' (Bool False) (numOfInt 60)]
   \<and> resolveName online defaults ''gone.example''
       = (fst (tryBlock online defaults ''gone.example''), Inl (Error ''DNS record not found''))
   \<and> normalizeName online ''busy.example'' = Inr ''busy.example'' \<and> \<not> hashRegex_test ''busy.example''
   \<and> probesInvoked (fst (resolveName online defaults ''busy.example'')) = [DnsOverHttps, WellKnown]
   \<and> statusCode (toResponse (https_get online (WellKnownFile ''busy.example''))) = 503
   \<and> cacheWrites (fst (resolveName online defaults ''busy.example'')) = []
   \<and> snd (tryBlock online defaults ''busy.example'') = Inl (Error ''DNS record not found'')"
proof -
  have n1: "normalizeName online ''gone.example'' = Inr ''gone.example''" by code_simp
  have h1: "\<not> hashRegex_test ''gone.example''" by code_simp
  have p1: "probesInvoked (fst (resolveName online defaults ''gone.example'')) = [DnsOverHttps, WellKnown]"
    by code_simp
  have s1: "statusCode (toResponse (https_get online (WellKnownFile ''gone.example''))) = 0"
    by code_simp
  have r1: "resolveName online defaults ''gone.example''
       = (fst (tryBlock online defaults ''gone.example''), Inl (Error ''DNS record not found''))"
    by code_simp
  have n2: "normalizeName online ''busy.example'' = Inr ''busy.example''" by code_simp
  have h2: "\<not> hashRegex_test ''busy.example''" by code_simp
  have p2: "probesInvoked (fst (resolveName online defaults ''busy.example'')) = [DnsOverHttps, WellKnown]"
    by code_simp
  have s2: "statusCode (toResponse (https_get online (WellKnownFile ''busy.example''))) = 503"
    by code_simp
  have i1: "WellKnown \<in> set (probesInvoked (fst (resolveName online defaults ''gone.example'')))"
    by (simp add: p1)
  have i2: "WellKnown \<in> set (probesInvoked (fst (resolveName online defaults ''busy.example'')))"
    by (simp add: p2)
  from C5_negative_cache [OF n1 h1 i1 s1 [symmetric]]
  have a: "cacheWrites (fst (resolveName online defaults ''gone.example''))
       = [McSet ''gone.example'' (Bool False) (numOfInt 60)]" by simp
  from C5_negative_cache [OF n2 h2 i2 s2 [symmetric]]
  have b: "cacheWrites (fst (resolveName online defaults ''busy.example'')) = []
       \<and> snd (tryBlock online defaults ''busy.example'') = Inl (Error ''DNS record not found'')" by simp
  from n1 h1 p1 s1 r1 n2 h2 p2 s2 a b show ?thesis by blast
qed

text \<open>
  C6. The TTL of the pair \<^verbatim>\<open>{key, ttl}\<close> either parser returns follows the rule
  \<open>clampedTtl\<close> of the raw TTL (\<^verbatim>\<open>answers[0].TTL\<close>, or the number read from the second
  line of the well-known file): 3600 when the raw TTL is not a safe integer or is
  negative, 604800 when it is above 604800, the raw TTL otherwise.
\<close>

theorem C6_ttl_clamped:
  "(winningAnswer en name b = (es, Inr (k, a)) \<longrightarrow>
      (\<exists>p. parseDnsOverHttpsRecord en name b = (es, Inr p) \<and> clampedTtl (answerTTL a) (ttl p)))
   \<and> (parseWellknownDatRecord en name b = (es, Inr p) \<longrightarrow>
      clampedTtl (snd (parseTtlLine name (splitLines b))) (ttl p))"
proof (intro conjI impI)
  assume "winningAnswer en name b = (es, Inr (k, a))"
  then show "\<exists>p. parseDnsOverHttpsRecord en name b = (es, Inr p) \<and> clampedTtl (answerTTL a) (ttl p)"
    using clamp_steps [of "answerTTL a"]
    by (simp add: parseDnsOverHttpsRecord_def Let_def)
next
  assume "parseWellknownDatRecord en name b = (es, Inr p)"
  then show "clampedTtl (snd (parseTtlLine name (splitLines b))) (ttl p)"
    using clamp_steps [of "snd (parseTtlLine name (splitLines b))"]
    by (auto simp: parseWellknownDatRecord_def Let_def split: if_splits option.splits prod.splits)
qed

theorem C6_ttl_clamped_witness:
  "winningAnswer online ''lh.example'' bodyLowHigh = ([], Inr (keyHigh, answer keyHigh 100000000))
   \<and> answerTTL (answer keyHigh 100000000) = numOfInt 100000000
   \<and> parseDnsOverHttpsRecord online ''lh.example'' bodyLowHigh = ([], Inr \<lparr>key = keyHigh, ttl = 604800\<rparr>)
   \<and> clampedTtl (numOfInt 100000000) 604800
   \<and> parseWellknownDatRecord online ''zero.example'' (''dat://'' @ keyLow @ [CHR 0x0A] @ ''TTL=0'')
        = ([], Inr \<lparr>key = keyLow, ttl = 0\<rparr>)
   \<and> snd (parseTtlLine ''zero.example'' (splitLines (''dat://'' @ keyLow @ [CHR 0x0A] @ ''TTL=0''))) = numOfInt 0
   \<and> clampedTtl (numOfInt 0) 0"
proof -
  have w: "winningAnswer online ''lh.example'' bodyLowHigh = ([], Inr (keyHigh, answer keyHigh 100000000))"
    by code_simp
  have a: "answerTTL (answer keyHigh 100000000) = numOfInt 100000000"
    by code_simp
  have p: "parseDnsOverHttpsRecord online ''lh.example'' bodyLowHigh = ([], Inr \<lparr>key = keyHigh, ttl = 604800\<rparr>)"
    by code_simp
  have k: "parseWellknownDatRecord online ''zero.example'' (''dat://'' @ keyLow @ [CHR 0x0A] @ ''TTL=0'')
        = ([], Inr \<lparr>key = keyLow, ttl = 0\<rparr>)"
    by code_simp
  have l: "snd (parseTtlLine ''zero.example'' (splitLines (''dat://'' @ keyLow @ [CHR 0x0A] @ ''TTL=0''))) = numOfInt 0"
    by code_simp
  from C6_ttl_clamped [of online "''lh.example''" bodyLowHigh "[]" keyHigh "answer keyHigh 100000000"] w a p
  have 1: "clampedTtl (numOfInt 100000000) 604800" by simp
  from C6_ttl_clamped [of online "''zero.example''" "''dat://'' @ keyLow @ [CHR 0x0A] @ ''TTL=0''" "[]" _ _
        "\<lparr>key = keyLow, ttl = 0\<rparr>"] k l
  have 2: "clampedTtl (numOfInt 0) 0" by simp
  from w a p k l 1 2 show ?thesis by blast
qed

text \<open>
  C7. For a name without a dot the DNS-over-HTTPS fetch is rejected with the error
  \<^verbatim>\<open>Domain is not a FQDN.\<close>, but the request is sent all the same: here for the name
  \<^verbatim>\<open>localhost\<close>, in any environment.
\<close>

theorem C7_no_dot_still_queries:
  "fetchDnsOverHttpsRecord en ''localhost'' =
     ([Fetch DnsOverHttps ''localhost'',
       Emit (Failed DnsOverHttps ''localhost'' NotFqdn),
       HttpsGet (DnsQuery ''localhost'')],
      Inl (Error ''Domain is not a FQDN.''))"
  by (simp add: fetchDnsOverHttpsRecord_def)

text \<open>
  C8. Claimed: a key given as input, also one written in upper case, is returned in
  lower case. The fast path returns \<^verbatim>\<open>name.slice(0, 64)\<close>, the normalised name as it
  is: the upper-case key below comes back in upper case.
\<close>

theorem C8_uppercase_key_counterexample:
  "normalizeName offline keyUpper = Inr keyUpper
   \<and> hashRegex_test keyUpper
   \<and> resolveName offline defaults keyUpper = ([], Inr (Str keyUpper))
   \<and> \<not> isLowercase keyUpper"
proof -
  have a: "normalizeName offline keyUpper = Inr keyUpper" by code_simp
  have b: "hashRegex_test keyUpper" by code_simp
  have c: "resolveName offline defaults keyUpper = ([], Inr (Str keyUpper))" by code_simp
  have d: "\<not> isLowercase keyUpper" by code_simp
  from a b c d show ?thesis by blast
qed

text \<open>
  C8, as the code has it. A key given as input is returned as the normalised name has it,
  character by character: the key returned is in lower case exactly when the normalised
  name is.
\<close>

theorem C8_key_case_preserved:
  assumes "normalizeName en raw = Inr name" and "hashRegex_test name"
  shows "snd (resolveName en opts raw) = Inr (Str name)
       \<and> (\<forall>k. snd (resolveName en opts raw) = Inr (Str k) \<longrightarrow> (isLowercase k \<longleftrightarrow> isLowercase name))"
  using assms by (simp add: resolveName_def hashRegex_take)

theorem C8_key_case_preserved_witness:
  "normalizeName offline (keyLow @ ''+7'') = Inr keyLow \<and> hashRegex_test keyLow
   \<and> snd (resolveName offline defaults (keyLow @ ''+7'')) = Inr (Str keyLow)
   \<and> isLowercase keyLow"
proof -
  have a: "normalizeName offline (keyLow @ ''+7'') = Inr keyLow" by code_simp
  have b: "hashRegex_test keyLow" by code_simp
  have c: "isLowercase keyLow" by code_simp
  from C8_key_case_preserved [OF a b, of defaults] a b c show ?thesis by blast
qed

text \<open>
  C9. When a probe resolves the name with a TTL of 0, the call returns the key and writes
  nothing to the memory cache.
\<close>

theorem C9_zero_ttl_not_cached:
  assumes "normalizeName en raw = Inr name" and "\<not> hashRegex_test name"
      and "snd (checkCache en opts name) = None"
      and "snd (runProbes en opts name) = Inr (ResObj p)" and "ttl p = 0"
  shows "snd (resolveName en opts raw) = Inr (Str (key p))
       \<and> cacheWrites (fst (resolveName en opts raw)) = []"
proof -
  obtain es where r: "runProbes en opts name = (es, Inr (ResObj p))"
    using assms(4) by (cases "runProbes en opts name") simp
  obtain e3 v where c: "cacheResult en name (ResObj p) = (e3, v)"
    by (cases "cacheResult en name (ResObj p)")
  from cacheResult_zero [OF assms(5) c] have e3: "cacheWrites e3 = []" and v: "v = Inr (Str (key p))"
    by simp_all
  have t: "tryBlock en opts name = (fst (checkCache en opts name) @ es @ e3, Inr (Str (key p)))"
    using assms(3) r c v by (simp add: tryBlock_probes)
  have q0: "cacheWrites (fst (checkCache en opts name)) = []"
    using checkCache_quiet [of en opts name] by (simp add: quiet_def)
  from t assms(1,2) have "snd (resolveName en opts raw) = Inr (Str (key p))"
    by (simp add: resolveName_def)
  moreover from t assms(1,2) q0 e3 runProbes_result_writes [OF r]
  have "cacheWrites (fst (resolveName en opts raw)) = []"
    by (simp add: resolveName_writes)
  ultimately show ?thesis by blast
qed

theorem C9_zero_ttl_not_cached_witness:
  "normalizeName online ''zero.example'' = Inr ''zero.example'' \<and> \<not> hashRegex_test ''zero.example''
   \<and> snd (checkCache online defaults ''zero.example'') = None
   \<and> snd (runProbes online defaults ''zero.example'') = Inr (ResObj \<lparr>key = keyLow, ttl = 0\<rparr>)
   \<and> snd (resolveName online defaults ''zero.example'') = Inr (Str keyLow)
   \<and> cacheWrites (fst (resolveName online defaults ''zero.example'')) = []"
proof -
  have n: "normalizeName online ''zero.example'' = Inr ''zero.example''" by code_simp
  have h: "\<not> hashRegex_test ''zero.example''" by code_simp
  have c: "snd (checkCache online defaults ''zero.example'') = None" by code_simp
  have r: "snd (runProbes online defaults ''zero.example'') = Inr (ResObj \<lparr>key = keyLow, ttl = 0\<rparr>)"
    by code_simp
  from C9_zero_ttl_not_cached [OF n h c r] n h c r show ?thesis by simp
qed

text \<open>
  C10. Claimed: an input whose normalised form is empty, such as \<^verbatim>\<open>+5\<close>, is answered
  with the empty string, without network access and without touching a cache, because
  the key pattern matches the empty string. The pattern does not match it, and the call
  for \<^verbatim>\<open>+5\<close> reads the memory cache, sends both requests, writes a miss to the
  memory cache and fails.
\<close>

theorem C10_empty_name_counterexample:
  "normalizeName offline ''+5'' = Inr []
   \<and> resolveName offline defaults ''+5'' =
       ([McGet [], Fetch DnsOverHttps [], Emit (Failed DnsOverHttps [] NotFqdn),
         HttpsGet (DnsQuery []), Fetch WellKnown [], HttpsGet (WellKnownFile []),
         Emit (Failed WellKnown [] (HttpCodeErr 0 (Some ''ENOTFOUND''))),
         McSet [] (Bool False) (numOfInt 60)],
        Inl (Error ''DNS record not found''))"
proof -
  have a: "normalizeName offline ''+5'' = Inr []" by code_simp
  have b: "resolveName offline defaults ''+5'' =
       ([McGet [], Fetch DnsOverHttps [], Emit (Failed DnsOverHttps [] NotFqdn),
         HttpsGet (DnsQuery []), Fetch WellKnown [], HttpsGet (WellKnownFile []),
         Emit (Failed WellKnown [] (HttpCodeErr 0 (Some ''ENOTFOUND''))),
         McSet [] (Bool False) (numOfInt 60)],
        Inl (Error ''DNS record not found''))" by code_simp
  from a b show ?thesis by blast
qed

text \<open>
  C10, as the code has it. An input whose normalised form is empty is not a key: the
  pattern \<^verbatim>\<open>/^[0-9a-f]{64}?$/i\<close> does not match the empty string, and
  \<^verbatim>\<open>resolveName\<close> handles the empty name as any other name. It never returns the
  empty string without an effect, and unless \<^verbatim>\<open>ignoreCache\<close> is set it begins by
  reading the memory cache for the empty name.
\<close>

theorem C10_empty_name_not_key:
  assumes "normalizeName en raw = Inr []"
  shows "\<not> hashRegex_test []
       \<and> resolveName en opts raw \<noteq> ([], Inr (Str []))
       \<and> (\<not> ignoreCache opts \<longrightarrow> (\<exists>es. fst (resolveName en opts raw) = McGet [] # es))"
proof (intro conjI impI)
  show "\<not> hashRegex_test []" by (rule hashRegex_empty)
  show "resolveName en opts raw \<noteq> ([], Inr (Str []))"
  proof
    assume r: "resolveName en opts raw = ([], Inr (Str []))"
    obtain es v where t: "tryBlock en opts [] = (es, v)" by (cases "tryBlock en opts []")
    from r assms t have "es = []" and "v = Inr (Str [])"
      by (auto simp: resolveName_def hashRegex_empty split: sum.splits option.splits)
    with t tryBlock_silent [of en opts "[]"] show False by simp
  qed
  assume nc: "\<not> ignoreCache opts"
  then have c: "fst (checkCache en opts []) = [McGet []]" by (simp add: checkCache_effects)
  have "\<exists>es. fst (tryBlock en opts []) = McGet [] # es"
    using c
    by (cases "snd (checkCache en opts [])")
       (auto simp: tryBlock_cached tryBlock_probes split: prod.splits sum.splits)
  then show "\<exists>es. fst (resolveName en opts raw) = McGet [] # es"
    using assms by (auto simp: resolveName_def hashRegex_empty split: prod.splits sum.splits option.splits)
qed

theorem C10_empty_name_not_key_witness:
  "normalizeName offline ''+5'' = Inr [] \<and> \<not> ignoreCache defaults
   \<and> \<not> hashRegex_test []
   \<and> resolveName offline defaults ''+5'' \<noteq> ([], Inr (Str []))
   \<and> hd (fst (resolveName offline defaults ''+5'')) = McGet []"
proof -
  have a: "normalizeName offline ''+5'' = Inr []" by code_simp
  have b: "\<not> ignoreCache defaults" by code_simp
  from C10_empty_name_not_key [OF a, of defaults] a b show ?thesis by auto
qed

end
